theory Spec2Isabelle
  imports Main
begin

section \<open>String primitives of the host language\<close>

text \<open>
  The validator \<^verbatim>\<open>performSTValidation\<close> of the validation panel works on text with
  the string methods \<^verbatim>\<open>split\<close>, \<^verbatim>\<open>trim\<close>, \<^verbatim>\<open>toUpperCase\<close>, \<^verbatim>\<open>startsWith\<close>,
  \<^verbatim>\<open>endsWith\<close>, \<^verbatim>\<open>includes\<close> and with a handful of regular expressions.
  Source text is modelled as \<^typ>\<open>string\<close>, a list of 8-bit characters; upper-casing
  acts on the letters a to z, which is what the host's \<^verbatim>\<open>toUpperCase\<close> and its
  case-insensitive matching do on ASCII text.
\<close>

definition toUpperChar :: "char \<Rightarrow> char" where
  "toUpperChar c =
     (let n = (of_char c :: nat)
      in if 97 \<le> n \<and> n \<le> 122 then char_of (n - 32) else c)"

definition toUpperCase :: "string \<Rightarrow> string" where
  "toUpperCase s = map toUpperChar s"

text \<open>White space as \<^verbatim>\<open>trim\<close> and the class \<^verbatim>\<open>\s\<close> see it: tab, line feed,
  vertical tab, form feed, carriage return, space and the no-break space.\<close>

definition isWhiteSpace :: "char \<Rightarrow> bool" where
  "isWhiteSpace c =
     (c \<in> set [CHR 0x09, CHR 0x0A, CHR 0x0B, CHR 0x0C, CHR 0x0D, CHR 0x20, CHR 0xA0])"

text \<open>The characters that \<^verbatim>\<open>.\<close> does not match.\<close>

definition isLineTerminator :: "char \<Rightarrow> bool" where
  "isLineTerminator c = (c = CHR 0x0A \<or> c = CHR 0x0D)"

text \<open>The class \<^verbatim>\<open>[A-Za-z]\<close>.\<close>

definition isLetter :: "char \<Rightarrow> bool" where
  "isLetter c =
     (let n = (of_char c :: nat)
      in (65 \<le> n \<and> n \<le> 90) \<or> (97 \<le> n \<and> n \<le> 122))"

text \<open>The class \<^verbatim>\<open>\w\<close>, which is \<^verbatim>\<open>[A-Za-z0-9_]\<close>.\<close>

definition isWordChar :: "char \<Rightarrow> bool" where
  "isWordChar c =
     (let n = (of_char c :: nat)
      in (48 \<le> n \<and> n \<le> 57) \<or> (65 \<le> n \<and> n \<le> 90) \<or> n = 95 \<or> (97 \<le> n \<and> n \<le> 122))"

definition trim :: "string \<Rightarrow> string" where
  "trim s = rev (dropWhile isWhiteSpace (rev (dropWhile isWhiteSpace s)))"

fun startsWith :: "string \<Rightarrow> string \<Rightarrow> bool" where
  "startsWith s [] = True"
| "startsWith [] (p # ps) = False"
| "startsWith (c # cs) (p # ps) = (c = p \<and> startsWith cs ps)"

definition endsWith :: "string \<Rightarrow> string \<Rightarrow> bool" where
  "endsWith s p = startsWith (rev s) (rev p)"

fun includesStr :: "string \<Rightarrow> string \<Rightarrow> bool" where
  "includesStr [] p = startsWith [] p"
| "includesStr (c # cs) p = (startsWith (c # cs) p \<or> includesStr cs p)"

text \<open>\<^verbatim>\<open>code.split('\n')\<close>: the pieces between line feeds; the empty text has one
  (empty) line.\<close>

fun split_lines :: "string \<Rightarrow> string list" where
  "split_lines [] = [[]]"
| "split_lines (c # cs) =
     (if c = CHR 0x0A then [] # split_lines cs
      else (case split_lines cs of
              [] \<Rightarrow> [[c]]
            | l # ls \<Rightarrow> (c # l) # ls))"

subsection \<open>The regular expressions\<close>

text \<open>\<^verbatim>\<open>/^(\w+)\s*:\s*(\w+)/\<close>: the longest run of word characters at the start,
  optional white space, a colon, optional white space, and the longest run of word
  characters there. Each of the first three quantifiers is followed by a character
  outside its class, so it can match in one way only; the last one is greedy and takes
  the longest run.\<close>

definition matchDeclaration :: "string \<Rightarrow> (string \<times> string) option" where
  "matchDeclaration s =
     (let varName = takeWhile isWordChar s
      in if varName = [] then None
         else (case dropWhile isWhiteSpace (dropWhile isWordChar s) of
                 [] \<Rightarrow> None
               | c # r \<Rightarrow>
                   if c \<noteq> CHR '':'' then None
                   else (let dataType = takeWhile isWordChar (dropWhile isWhiteSpace r)
                         in if dataType = [] then None else Some (varName, dataType))))"

text \<open>\<^verbatim>\<open>/^[A-Za-z][A-Za-z0-9_]*$/\<close>.\<close>

fun followsNaming :: "string \<Rightarrow> bool" where
  "followsNaming [] = False"
| "followsNaming (c # cs) = (isLetter c \<and> list_all isWordChar cs)"

text \<open>\<^verbatim>\<open>/(\w+)\s*:=/\<close> is not anchored: the match is tried at every position from the
  left, and the first position that succeeds gives the captured word.\<close>

definition matchAssignmentAt :: "string \<Rightarrow> string option" where
  "matchAssignmentAt s =
     (let w = takeWhile isWordChar s
      in if w = [] then None
         else if startsWith (dropWhile isWhiteSpace (dropWhile isWordChar s)) '':=''
              then Some w else None)"

fun matchAssignment :: "string \<Rightarrow> string option" where
  "matchAssignment [] = None"
| "matchAssignment (c # cs) =
     (case matchAssignmentAt (c # cs) of
        Some w \<Rightarrow> Some w
      | None \<Rightarrow> matchAssignment cs)"

text \<open>A literal alternative under the flag \<^verbatim>\<open>i\<close>: a character of the text
  matches a character of the pattern when their upper-case forms are equal, and the
  test succeeds when the pattern occurs somewhere in the text.\<close>

definition testI :: "string \<Rightarrow> string \<Rightarrow> bool" where
  "testI p s = includesStr (toUpperCase s) (toUpperCase p)"

text \<open>\<^verbatim>\<open>.*p\<close> at the start of a string: \<^verbatim>\<open>p\<close> after any characters that are not
  line terminators.\<close>

fun dotStarThen :: "string \<Rightarrow> string \<Rightarrow> bool" where
  "dotStarThen p [] = startsWith [] p"
| "dotStarThen p (c # cs) =
     (startsWith (c # cs) p \<or> (\<not> isLineTerminator c \<and> dotStarThen p cs))"

fun includesSeq :: "string \<Rightarrow> string \<Rightarrow> string \<Rightarrow> bool" where
  "includesSeq [] p q = (startsWith [] p \<and> dotStarThen q (drop (length p) []))"
| "includesSeq (c # cs) p q =
     ((startsWith (c # cs) p \<and> dotStarThen q (drop (length p) (c # cs))) \<or> includesSeq cs p q)"

text \<open>An alternative \<^verbatim>\<open>p.*q\<close> under the flag \<^verbatim>\<open>i\<close>.\<close>

definition testSeqI :: "string \<Rightarrow> string \<Rightarrow> string \<Rightarrow> bool" where
  "testSeqI p q s = includesSeq (toUpperCase s) (toUpperCase p) (toUpperCase q)"

text \<open>\<^verbatim>\<open>(s.match(/c/g) || []).length\<close> for a single character.\<close>

definition countChar :: "char \<Rightarrow> string \<Rightarrow> int" where
  "countChar c s = int (length (filter (\<lambda>d. d = c) s))"

section \<open>The validation report\<close>

datatype resultType = Error | Warning | Info

datatype severity = Critical | Medium | Low

datatype category = Syntax | Semantics | Safety | Style | Iec61131

record ValidationResult =
  type :: resultType
  message :: string
  line :: "nat option"
  column :: "nat option"
  severity :: severity
  category :: category

record SafetyChecks =
  emergencyStop :: bool
  safetyInterlocks :: bool
  failSafeMechanisms :: bool
  watchdogTimer :: bool
  inputValidation :: bool

record IecCompliance =
  variableDeclaration :: bool
  dataTypeUsage :: bool
  structureCompliance :: bool
  namingConvention :: bool

record ValidationResults =
  isValid :: bool
  errors :: "ValidationResult list"
  warnings :: "ValidationResult list"
  suggestions :: "ValidationResult list"
  safetyChecks :: SafetyChecks
  iecCompliance :: IecCompliance
  syntaxScore :: int
  logicScore :: int
  safetyScore :: int

text \<open>The local variables of \<^verbatim>\<open>performSTValidation\<close> that the callbacks of the two
  \<^verbatim>\<open>forEach\<close> loops update, together with the report under construction. The two
  \<^verbatim>\<open>Set\<close>s are lists without duplicates in insertion order, the order in which
  \<^verbatim>\<open>Set.forEach\<close> visits them.\<close>

record ScanState =
  results :: ValidationResults
  inVarSection :: bool
  inFunctionBlock :: bool
  braceCount :: int
  declaredVariables :: "string list"
  usedVariables :: "string list"

definition initialResults :: ValidationResults where
  "initialResults =
     \<lparr> isValid = True, errors = [], warnings = [], suggestions = [],
       safetyChecks = \<lparr> emergencyStop = False, safetyInterlocks = False,
                        failSafeMechanisms = False, watchdogTimer = False,
                        inputValidation = False \<rparr>,
       iecCompliance = \<lparr> variableDeclaration = False, dataTypeUsage = False,
                         structureCompliance = False, namingConvention = True \<rparr>,
       syntaxScore = 100, logicScore = 100, safetyScore = 0 \<rparr>"

definition initialState :: ScanState where
  "initialState =
     \<lparr> results = initialResults, inVarSection = False, inFunctionBlock = False,
       braceCount = 0, declaredVariables = [], usedVariables = [] \<rparr>"

definition reservedWords :: "string list" where
  "reservedWords =
     [''VAR'', ''END_VAR'', ''VAR_INPUT'', ''VAR_OUTPUT'', ''VAR_IN_OUT'', ''VAR_TEMP'',
      ''VAR_EXTERNAL'', ''VAR_GLOBAL'',
      ''PROGRAM'', ''END_PROGRAM'', ''FUNCTION'', ''END_FUNCTION'', ''FUNCTION_BLOCK'',
      ''END_FUNCTION_BLOCK'',
      ''IF'', ''THEN'', ''ELSE'', ''ELSIF'', ''END_IF'', ''CASE'', ''OF'', ''END_CASE'',
      ''FOR'', ''TO'', ''BY'', ''DO'', ''END_FOR'', ''WHILE'', ''END_WHILE'', ''REPEAT'',
      ''UNTIL'', ''END_REPEAT'',
      ''EXIT'', ''RETURN'', ''TRUE'', ''FALSE'', ''AND'', ''OR'', ''XOR'', ''NOT'', ''MOD'']"

definition standardDataTypes :: "string list" where
  "standardDataTypes =
     [''BOOL'', ''SINT'', ''INT'', ''DINT'', ''LINT'', ''USINT'', ''UINT'', ''UDINT'', ''ULINT'',
      ''REAL'', ''LREAL'', ''TIME'', ''DATE'', ''TIME_OF_DAY'', ''TOD'', ''DATE_AND_TIME'', ''DT'',
      ''STRING'', ''WSTRING'', ''BYTE'', ''WORD'', ''DWORD'', ''LWORD'']"

subsection \<open>Updates of the report\<close>

definition pushError :: "ValidationResult \<Rightarrow> ScanState \<Rightarrow> ScanState" where
  "pushError e st = st\<lparr>results := (results st)\<lparr>errors := errors (results st) @ [e]\<rparr>\<rparr>"

definition pushWarning :: "ValidationResult \<Rightarrow> ScanState \<Rightarrow> ScanState" where
  "pushWarning w st = st\<lparr>results := (results st)\<lparr>warnings := warnings (results st) @ [w]\<rparr>\<rparr>"

definition pushSuggestion :: "ValidationResult \<Rightarrow> ScanState \<Rightarrow> ScanState" where
  "pushSuggestion g st =
     st\<lparr>results := (results st)\<lparr>suggestions := suggestions (results st) @ [g]\<rparr>\<rparr>"

definition invalidate :: "ScanState \<Rightarrow> ScanState" where
  "invalidate st = st\<lparr>results := (results st)\<lparr>isValid := False\<rparr>\<rparr>"

definition updSafety :: "(SafetyChecks \<Rightarrow> SafetyChecks) \<Rightarrow> ScanState \<Rightarrow> ScanState" where
  "updSafety f st = st\<lparr>results := (results st)\<lparr>safetyChecks := f (safetyChecks (results st))\<rparr>\<rparr>"

definition updCompliance :: "(IecCompliance \<Rightarrow> IecCompliance) \<Rightarrow> ScanState \<Rightarrow> ScanState" where
  "updCompliance f st =
     st\<lparr>results := (results st)\<lparr>iecCompliance := f (iecCompliance (results st))\<rparr>\<rparr>"

text \<open>\<^verbatim>\<open>Set.add\<close>.\<close>

definition setAdd :: "string \<Rightarrow> string list \<Rightarrow> string list" where
  "setAdd x xs = (if x \<in> set xs then xs else xs @ [x])"

subsection \<open>The diagnostics\<close>

definition apostrophe :: string where
  "apostrophe = [CHR 0x27]"

definition nonStandardTypeWarning :: "string \<Rightarrow> nat \<Rightarrow> ValidationResult" where
  "nonStandardTypeWarning dataType lineNum =
     \<lparr> type = Warning,
       message = ''Non-standard data type '' @ apostrophe @ dataType @ apostrophe @ '' used'',
       line = Some lineNum, column = None, severity = Medium, category = Iec61131 \<rparr>"

definition namingWarning :: "string \<Rightarrow> nat \<Rightarrow> ValidationResult" where
  "namingWarning varName lineNum =
     \<lparr> type = Warning,
       message = ''Variable '' @ apostrophe @ varName @ apostrophe @ '' doesn'' @ apostrophe
                 @ ''t follow IEC 61131-3 naming convention'',
       line = Some lineNum, column = None, severity = Medium, category = Iec61131 \<rparr>"

definition reservedWordError :: "string \<Rightarrow> nat \<Rightarrow> ValidationResult" where
  "reservedWordError varName lineNum =
     \<lparr> type = Error,
       message = apostrophe @ varName @ apostrophe
                 @ '' is a reserved word and cannot be used as variable name'',
       line = Some lineNum, column = None, severity = Critical, category = Syntax \<rparr>"

definition syntaxError :: "string \<Rightarrow> nat \<Rightarrow> ValidationResult" where
  "syntaxError msg lineNum =
     \<lparr> type = Error, message = msg, line = Some lineNum, column = None,
       severity = Critical, category = Syntax \<rparr>"

definition assignmentWarning :: "nat \<Rightarrow> ValidationResult" where
  "assignmentWarning lineNum =
     \<lparr> type = Warning, message = ''Use := for assignment, = is for comparison'',
       line = Some lineNum, column = None, severity = Medium, category = Syntax \<rparr>"

definition semicolonWarning :: "nat \<Rightarrow> ValidationResult" where
  "semicolonWarning lineNum =
     \<lparr> type = Warning, message = ''Statement should end with semicolon'',
       line = Some lineNum, column = None, severity = Medium, category = Style \<rparr>"

definition unmatchedError :: ValidationResult where
  "unmatchedError =
     \<lparr> type = Error, message = ''Unmatched parentheses in code'', line = None, column = None,
       severity = Critical, category = Syntax \<rparr>"

definition unusedWarning :: "string \<Rightarrow> ValidationResult" where
  "unusedWarning varName =
     \<lparr> type = Warning,
       message = ''Variable '' @ apostrophe @ varName @ apostrophe @ '' declared but never used'',
       line = None, column = None, severity = Low, category = Style \<rparr>"

definition commentSuggestion :: ValidationResult where
  "commentSuggestion =
     \<lparr> type = Info,
       message = ''Add comments using (* *) or // for better code documentation'',
       line = None, column = None, severity = Low, category = Style \<rparr>"

definition emergencyStopSuggestion :: ValidationResult where
  "emergencyStopSuggestion =
     \<lparr> type = Info,
       message = ''Consider implementing emergency stop logic for safety compliance'',
       line = None, column = None, severity = Medium, category = Safety \<rparr>"

definition largeProgramSuggestion :: ValidationResult where
  "largeProgramSuggestion =
     \<lparr> type = Info,
       message = ''Consider breaking large programs into smaller function blocks'',
       line = None, column = None, severity = Low, category = Style \<rparr>"

section \<open>The scan of one line\<close>

text \<open>The body of the callback of \<^verbatim>\<open>lines.forEach\<close>, one definition for each of
  its blocks, in the order of the source. Each takes the line number, the trimmed line
  and the upper-cased trimmed line as far as it reads them.\<close>

definition skipLine :: "string \<Rightarrow> bool" where
  "skipLine trimmedLine =
     (trimmedLine = [] \<or> startsWith trimmedLine ''(*'' \<or> startsWith trimmedLine ''//'')"

definition trackSections :: "string \<Rightarrow> ScanState \<Rightarrow> ScanState" where
  "trackSections upperLine st =
     (let st1 = (if startsWith upperLine ''VAR''
                 then updCompliance (\<lambda>c. c\<lparr>variableDeclaration := True\<rparr>)
                        (st\<lparr>inVarSection := True\<rparr>)
                 else st);
          st2 = (if upperLine = ''END_VAR'' then st1\<lparr>inVarSection := False\<rparr> else st1)
      in if includesStr upperLine ''FUNCTION_BLOCK'' \<or> includesStr upperLine ''PROGRAM''
         then st2\<lparr>inFunctionBlock := True\<rparr> else st2)"

definition checkDataType :: "nat \<Rightarrow> string \<Rightarrow> ScanState \<Rightarrow> ScanState" where
  "checkDataType lineNum dataType st =
     (if toUpperCase dataType \<in> set standardDataTypes
      then updCompliance (\<lambda>c. c\<lparr>dataTypeUsage := True\<rparr>) st
      else pushWarning (nonStandardTypeWarning dataType lineNum) st)"

definition checkNaming :: "nat \<Rightarrow> string \<Rightarrow> ScanState \<Rightarrow> ScanState" where
  "checkNaming lineNum varName st =
     (if \<not> followsNaming varName
      then updCompliance (\<lambda>c. c\<lparr>namingConvention := False\<rparr>)
             (pushWarning (namingWarning varName lineNum) st)
      else st)"

definition checkReserved :: "nat \<Rightarrow> string \<Rightarrow> ScanState \<Rightarrow> ScanState" where
  "checkReserved lineNum varName st =
     (if toUpperCase varName \<in> set reservedWords
      then invalidate (pushError (reservedWordError varName lineNum) st)
      else st)"

definition parseDeclaration :: "nat \<Rightarrow> string \<Rightarrow> string \<Rightarrow> ScanState \<Rightarrow> ScanState" where
  "parseDeclaration lineNum trimmedLine upperLine st =
     (if inVarSection st \<and> includesStr trimmedLine '':'' \<and> \<not> startsWith upperLine ''VAR''
      then (case matchDeclaration trimmedLine of
              None \<Rightarrow> st
            | Some (varName, dataType) \<Rightarrow>
                checkReserved lineNum varName
                  (checkNaming lineNum varName
                    (checkDataType lineNum dataType
                      (st\<lparr>declaredVariables :=
                            setAdd (toUpperCase varName) (declaredVariables st)\<rparr>))))
      else st)"

definition checkIf :: "nat \<Rightarrow> string \<Rightarrow> string \<Rightarrow> ScanState \<Rightarrow> ScanState" where
  "checkIf lineNum trimmedLine upperLine st =
     (if includesStr upperLine ''IF '' \<and> \<not> includesStr upperLine ''THEN''
         \<and> \<not> includesStr trimmedLine '':=''
      then invalidate (pushError (syntaxError ''IF statement must be followed by THEN'' lineNum) st)
      else st)"

definition checkFor :: "nat \<Rightarrow> string \<Rightarrow> ScanState \<Rightarrow> ScanState" where
  "checkFor lineNum upperLine st =
     (if includesStr upperLine ''FOR '' \<and> \<not> includesStr upperLine ''TO''
      then invalidate (pushError (syntaxError ''FOR statement missing TO keyword'' lineNum) st)
      else st)"

definition checkWhile :: "nat \<Rightarrow> string \<Rightarrow> ScanState \<Rightarrow> ScanState" where
  "checkWhile lineNum upperLine st =
     (if includesStr upperLine ''WHILE '' \<and> \<not> includesStr upperLine ''DO''
      then invalidate (pushError (syntaxError ''WHILE statement missing DO keyword'' lineNum) st)
      else st)"

definition checkCase :: "nat \<Rightarrow> string \<Rightarrow> ScanState \<Rightarrow> ScanState" where
  "checkCase lineNum upperLine st =
     (if includesStr upperLine ''CASE '' \<and> \<not> includesStr upperLine ''OF''
      then invalidate (pushError (syntaxError ''CASE statement missing OF keyword'' lineNum) st)
      else st)"

definition assignmentOperatorMisuse :: "string \<Rightarrow> string \<Rightarrow> bool" where
  "assignmentOperatorMisuse trimmedLine upperLine =
     (includesStr trimmedLine ''='' \<and> \<not> includesStr trimmedLine '':=''
      \<and> \<not> includesStr trimmedLine ''<='' \<and> \<not> includesStr trimmedLine ''>=''
      \<and> \<not> includesStr trimmedLine ''<>'' \<and> \<not> includesStr upperLine ''IF '')"

definition checkAssignmentOperator :: "nat \<Rightarrow> string \<Rightarrow> string \<Rightarrow> ScanState \<Rightarrow> ScanState" where
  "checkAssignmentOperator lineNum trimmedLine upperLine st =
     (if assignmentOperatorMisuse trimmedLine upperLine
      then pushWarning (assignmentWarning lineNum) st
      else st)"

definition checkSemicolon :: "nat \<Rightarrow> string \<Rightarrow> string \<Rightarrow> ScanState \<Rightarrow> ScanState" where
  "checkSemicolon lineNum trimmedLine upperLine st =
     (if \<not> inVarSection st
         \<and> (includesStr trimmedLine '':='' \<or> startsWith upperLine ''RETURN''
              \<or> includesStr upperLine ''EXIT'')
         \<and> \<not> endsWith trimmedLine '';''
      then pushWarning (semicolonWarning lineNum) st
      else st)"

definition trackUsage :: "string \<Rightarrow> ScanState \<Rightarrow> ScanState" where
  "trackUsage trimmedLine st =
     (case matchAssignment trimmedLine of
        None \<Rightarrow> st
      | Some w \<Rightarrow> st\<lparr>usedVariables := setAdd (toUpperCase w) (usedVariables st)\<rparr>)"

definition testEmergencyStop :: "string \<Rightarrow> bool" where
  "testEmergencyStop s =
     (testI ''emergency'' s \<or> testI ''e_stop'' s \<or> testI ''estop'' s \<or> testI ''safety'' s)"

definition testInterlocks :: "string \<Rightarrow> bool" where
  "testInterlocks s =
     (testI ''interlock'' s \<or> testI ''safety_gate'' s \<or> testI ''light_curtain'' s
      \<or> testI ''safety_door'' s)"

definition testFailSafe :: "string \<Rightarrow> bool" where
  "testFailSafe s =
     (testI ''fail_safe'' s \<or> testI ''watchdog'' s \<or> testI ''timeout'' s
      \<or> testI ''safety_time'' s)"

definition testWatchdog :: "string \<Rightarrow> bool" where
  "testWatchdog s =
     (testI ''watchdog'' s \<or> testI ''wdt'' s \<or> testSeqI ''timer'' ''reset'' s)"

definition testInputValidation :: "string \<Rightarrow> bool" where
  "testInputValidation s =
     (testSeqI ''input'' ''valid'' s \<or> testSeqI ''range'' ''check'' s
      \<or> testSeqI ''limit'' ''check'' s)"

definition safetyChecksOfLine :: "string \<Rightarrow> ScanState \<Rightarrow> ScanState" where
  "safetyChecksOfLine trimmedLine st =
     (let st1 = (if testEmergencyStop trimmedLine
                 then updSafety (\<lambda>c. c\<lparr>emergencyStop := True\<rparr>) st else st);
          st2 = (if testInterlocks trimmedLine
                 then updSafety (\<lambda>c. c\<lparr>safetyInterlocks := True\<rparr>) st1 else st1);
          st3 = (if testFailSafe trimmedLine
                 then updSafety (\<lambda>c. c\<lparr>failSafeMechanisms := True\<rparr>) st2 else st2);
          st4 = (if testWatchdog trimmedLine
                 then updSafety (\<lambda>c. c\<lparr>watchdogTimer := True\<rparr>) st3 else st3)
      in if testInputValidation trimmedLine
         then updSafety (\<lambda>c. c\<lparr>inputValidation := True\<rparr>) st4 else st4)"

definition checkStructure :: "string \<Rightarrow> ScanState \<Rightarrow> ScanState" where
  "checkStructure upperLine st =
     (if includesStr upperLine ''END_IF'' \<or> includesStr upperLine ''END_FOR''
         \<or> includesStr upperLine ''END_WHILE'' \<or> includesStr upperLine ''END_CASE''
      then updCompliance (\<lambda>c. c\<lparr>structureCompliance := True\<rparr>) st
      else st)"

definition lineBalance :: "string \<Rightarrow> int" where
  "lineBalance trimmedLine = countChar CHR ''('' trimmedLine - countChar CHR '')'' trimmedLine"

definition countParentheses :: "string \<Rightarrow> ScanState \<Rightarrow> ScanState" where
  "countParentheses trimmedLine st =
     st\<lparr>braceCount := braceCount st + countChar CHR ''('' trimmedLine
                        - countChar CHR '')'' trimmedLine\<rparr>"

text \<open>The part of the callback after its early \<^verbatim>\<open>return\<close>.\<close>

definition processLine :: "nat \<Rightarrow> string \<Rightarrow> ScanState \<Rightarrow> ScanState" where
  "processLine lineNum trimmedLine st =
     (let upperLine = toUpperCase trimmedLine
      in countParentheses trimmedLine
          (checkStructure upperLine
            (safetyChecksOfLine trimmedLine
              (trackUsage trimmedLine
                (checkSemicolon lineNum trimmedLine upperLine
                  (checkAssignmentOperator lineNum trimmedLine upperLine
                    (checkCase lineNum upperLine
                      (checkWhile lineNum upperLine
                        (checkFor lineNum upperLine
                          (checkIf lineNum trimmedLine upperLine
                            (parseDeclaration lineNum trimmedLine upperLine
                              (trackSections upperLine st))))))))))))"

text \<open>The callback: \<^verbatim>\<open>index\<close> counts from 0, \<^verbatim>\<open>lineNum = index + 1\<close>.\<close>

definition scanLine :: "nat \<Rightarrow> string \<Rightarrow> ScanState \<Rightarrow> ScanState" where
  "scanLine index ln st =
     (let trimmedLine = trim ln
      in if skipLine trimmedLine then st else processLine (index + 1) trimmedLine st)"

text \<open>\<^verbatim>\<open>lines.forEach\<close>, from the line with the given index on.\<close>

fun forEachLine :: "nat \<Rightarrow> string list \<Rightarrow> ScanState \<Rightarrow> ScanState" where
  "forEachLine index [] st = st"
| "forEachLine index (ln # lns) st = forEachLine (Suc index) lns (scanLine index ln st)"

definition scanLines :: "string \<Rightarrow> ScanState" where
  "scanLines code = forEachLine 0 (split_lines code) initialState"

section \<open>After the scan\<close>

definition checkUnmatched :: "ScanState \<Rightarrow> ScanState" where
  "checkUnmatched st =
     (if braceCount st \<noteq> 0 then invalidate (pushError unmatchedError st) else st)"

text \<open>\<^verbatim>\<open>declaredVariables.forEach\<close>; the set of used variables does not change here.\<close>

fun checkUnused :: "string list \<Rightarrow> ScanState \<Rightarrow> ScanState" where
  "checkUnused [] st = st"
| "checkUnused (varName # rest) st =
     checkUnused rest
       (if varName \<notin> set (usedVariables st) then pushWarning (unusedWarning varName) st else st)"

definition addSuggestions :: "string \<Rightarrow> ScanState \<Rightarrow> ScanState" where
  "addSuggestions code st =
     (let st1 = (if \<not> includesStr code ''(*'' \<and> \<not> includesStr code ''//''
                 then pushSuggestion commentSuggestion st else st);
          st2 = (if \<not> emergencyStop (safetyChecks (results st1))
                 then pushSuggestion emergencyStopSuggestion st1 else st1)
      in if length (split_lines code) > 100
         then pushSuggestion largeProgramSuggestion st2 else st2)"

text \<open>\<^verbatim>\<open>Object.values(results.safetyChecks).filter(Boolean).length\<close>.\<close>

definition safetyFeatures :: "SafetyChecks \<Rightarrow> int" where
  "safetyFeatures c =
     int (length (filter id [emergencyStop c, safetyInterlocks c, failSafeMechanisms c,
                             watchdogTimer c, inputValidation c]))"

definition calculateScores :: "ValidationResults \<Rightarrow> ValidationResults" where
  "calculateScores r =
     (let errorPenalty = int (length (errors r)) * 15;
          warningPenalty = int (length (warnings r)) * 5
      in r\<lparr> syntaxScore := max 0 (100 - errorPenalty - warningPenalty),
            logicScore :=
              max 0 (100 - int (length (filter (\<lambda>e. category e = Semantics) (errors r))) * 20),
            safetyScore := min 100 (safetyFeatures (safetyChecks r) * 20) \<rparr>)"

definition finish :: "string \<Rightarrow> ScanState \<Rightarrow> ValidationResults" where
  "finish code st =
     calculateScores
       (results (addSuggestions code (checkUnused (declaredVariables st) (checkUnmatched st))))"

text \<open>The validator. The source awaits a timer of 1.5 seconds first, which has no part
  in the report.\<close>

definition performSTValidation :: "string \<Rightarrow> ValidationResults" where
  "performSTValidation code = finish code (scanLines code)"

section \<open>Notions used in the statements\<close>

text \<open>What every diagnostic in \<^verbatim>\<open>errors\<close> looks like while the lines are scanned.\<close>

definition scanError :: "ValidationResult \<Rightarrow> bool" where
  "scanError e =
     (type e = Error \<and> category e = Syntax \<and> severity e = Critical
      \<and> message e \<noteq> ''Unmatched parentheses in code'')"

definition scanInvariant :: "ScanState \<Rightarrow> bool" where
  "scanInvariant st =
     (isValid (results st) = (errors (results st) = [])
      \<and> list_all scanError (errors (results st))
      \<and> list_all (\<lambda>w. type w = Warning) (warnings (results st))
      \<and> suggestions (results st) = [])"

text \<open>The second state has every warning and every safety flag of the first.\<close>

definition grows :: "ScanState \<Rightarrow> ScanState \<Rightarrow> bool" where
  "grows st st' =
     (set (warnings (results st)) \<subseteq> set (warnings (results st'))
      \<and> emergencyStop (safetyChecks (results st)) \<le> emergencyStop (safetyChecks (results st'))
      \<and> safetyInterlocks (safetyChecks (results st))
           \<le> safetyInterlocks (safetyChecks (results st'))
      \<and> failSafeMechanisms (safetyChecks (results st))
           \<le> failSafeMechanisms (safetyChecks (results st'))
      \<and> watchdogTimer (safetyChecks (results st)) \<le> watchdogTimer (safetyChecks (results st'))
      \<and> inputValidation (safetyChecks (results st))
           \<le> inputValidation (safetyChecks (results st')))"

text \<open>The lines that the scan does not skip, trimmed.\<close>

definition processedLines :: "string \<Rightarrow> string list" where
  "processedLines code = filter (\<lambda>t. \<not> skipLine t) (map trim (split_lines code))"

text \<open>The open-parenthesis count minus the close-parenthesis count, summed over the
  processed lines.\<close>

definition parenthesisBalance :: "string \<Rightarrow> int" where
  "parenthesisBalance code = sum_list (map lineBalance (processedLines code))"

text \<open>A report is well formed when its three scores lie between 0 and 100, its flag
  \<^verbatim>\<open>isValid\<close> says that there are no errors, and each of its three lists holds
  diagnostics of its own type.\<close>

definition wellFormed :: "ValidationResults \<Rightarrow> bool" where
  "wellFormed r =
     (0 \<le> syntaxScore r \<and> syntaxScore r \<le> 100
      \<and> 0 \<le> logicScore r \<and> logicScore r \<le> 100
      \<and> 0 \<le> safetyScore r \<and> safetyScore r \<le> 100
      \<and> isValid r = (errors r = [])
      \<and> list_all (\<lambda>e. type e = Error) (errors r)
      \<and> list_all (\<lambda>w. type w = Warning) (warnings r)
      \<and> list_all (\<lambda>g. type g = Info) (suggestions r))"

text \<open>A line has a bare \<^verbatim>\<open>=\<close> when one of its \<^verbatim>\<open>=\<close> characters is not the second
  character of \<^verbatim>\<open>:=\<close>, \<^verbatim>\<open><=\<close> or \<^verbatim>\<open>>=\<close>, that is, does not come right after a colon
  or an angle bracket (\<^verbatim>\<open><>\<close> has no \<^verbatim>\<open>=\<close>). The first argument of
  \<open>bareEqualsAfter\<close> is the character before the rest of the line.\<close>

fun bareEqualsAfter :: "char \<Rightarrow> string \<Rightarrow> bool" where
  "bareEqualsAfter p [] = False"
| "bareEqualsAfter p (c # cs) =
     ((c = CHR ''='' \<and> p \<notin> set '':<>'') \<or> bareEqualsAfter c cs)"

fun bareEquals :: "string \<Rightarrow> bool" where
  "bareEquals [] = False"
| "bareEquals (c # cs) = (c = CHR ''='' \<or> bareEqualsAfter c cs)"

text \<open>The processed lines with their line numbers, in the order of the scan.\<close>

definition numberedLines :: "string \<Rightarrow> (nat \<times> string) list" where
  "numberedLines code =
     filter (\<lambda>(lineNum, t). \<not> skipLine t) (enumerate 1 (map trim (split_lines code)))"

text \<open>What the two regular expressions with a capture mean, without a reading order:
  \<open>assignmentAt s w\<close> says that \<^verbatim>\<open>(\w+)\s*:=\<close> matches at the start of \<open>s\<close> with
  the word \<open>w\<close>, and \<open>declarationAt s v d\<close> that \<^verbatim>\<open>^(\w+)\s*:\s*(\w+)\<close> matches
  \<open>s\<close> with the words \<open>v\<close> and \<open>d\<close>.\<close>

definition assignmentAt :: "string \<Rightarrow> string \<Rightarrow> bool" where
  "assignmentAt s w =
     (\<exists>sp rest. s = w @ sp @ '':='' @ rest \<and> w \<noteq> [] \<and> list_all isWordChar w
        \<and> list_all isWhiteSpace sp)"

definition declarationAt :: "string \<Rightarrow> string \<Rightarrow> string \<Rightarrow> bool" where
  "declarationAt s v d =
     (\<exists>sp1 sp2 rest. s = v @ sp1 @ '':'' @ sp2 @ d @ rest \<and> v \<noteq> [] \<and> d \<noteq> []
        \<and> list_all isWordChar v \<and> list_all isWordChar d
        \<and> list_all isWhiteSpace sp1 \<and> list_all isWhiteSpace sp2)"

text \<open>The suggestions that are added after the scan, given the text and the flag
  \<^verbatim>\<open>emergencyStop\<close>.\<close>

definition finalSuggestions :: "string \<Rightarrow> bool \<Rightarrow> ValidationResult list" where
  "finalSuggestions code es =
     (if \<not> includesStr code ''(*'' \<and> \<not> includesStr code ''//'' then [commentSuggestion] else [])
     @ (if \<not> es then [emergencyStopSuggestion] else [])
     @ (if length (split_lines code) > 100 then [largeProgramSuggestion] else [])"

section \<open>Evaluation\<close>

text \<open>Upper-casing on the bits of a character: the letters a to z are the codes
  \<^verbatim>\<open>0x61\<close> to \<^verbatim>\<open>0x7A\<close>, and clearing bit 5 subtracts 32.\<close>

lemma toUpperChar_bits [code]:
  "toUpperChar (Char b0 b1 b2 b3 b4 b5 b6 b7) =
     (if \<not> b7 \<and> b6 \<and> b5
         \<and> ((b4 \<and> \<not> (b3 \<and> (b2 \<or> (b1 \<and> b0)))) \<or> (\<not> b4 \<and> (b3 \<or> b2 \<or> b1 \<or> b0)))
      then Char b0 b1 b2 b3 b4 False b6 b7 else Char b0 b1 b2 b3 b4 b5 b6 b7)"
  by (cases b0; cases b1; cases b2; cases b3; cases b4; cases b5; cases b6; cases b7;
      simp add: toUpperChar_def char_of_def bit_0)

section \<open>The string functions and what they compute\<close>

text \<open>The functions on strings are written as the scans that the host performs. The
  lemmas of this section say what they compute: the lines of a text joined by line feeds
  are the text, a string includes another when it is a prefix, the other and a suffix, and
  the two matchers return the captures of the regular expressions, the leftmost match
  and the longest words, as the greedy quantifiers of the host give them.\<close>

lemma word_not_white: "isWordChar c \<Longrightarrow> \<not> isWhiteSpace c"
  by (auto simp add: isWordChar_def isWhiteSpace_def)

lemma colon_class: "\<not> isWordChar CHR '':''" "\<not> isWhiteSpace CHR '':''"
  by (simp_all add: isWordChar_def isWhiteSpace_def)

lemma run_split:
  assumes "list_all P xs" and "r = [] \<or> \<not> P (hd r)"
  shows "takeWhile P (xs @ r) = xs" and "dropWhile P (xs @ r) = r"
proof -
  have a: "\<forall>x \<in> set xs. P x" using assms(1) by (simp add: list_all_iff)
  have b: "takeWhile P r = []" using assms(2) by (simp add: takeWhile_eq_Nil_iff)
  have c: "dropWhile P r = r" using assms(2) by (cases r) auto
  show "takeWhile P (xs @ r) = xs" using a b by (simp add: takeWhile_append2)
  show "dropWhile P (xs @ r) = r" using a c by (simp add: dropWhile_append2)
qed

lemma white_then_colon:
  assumes "list_all isWhiteSpace sp"
  shows "sp @ CHR '':'' # r = [] \<or> \<not> isWordChar (hd (sp @ CHR '':'' # r))"
  using assms by (cases sp) (auto simp add: colon_class dest: word_not_white)

lemma startsWith_append: "startsWith (p @ r) p"
  by (induction p) simp_all

lemma startsWith_decompose: "startsWith s p \<Longrightarrow> \<exists>r. s = p @ r"
  by (induction s p rule: startsWith.induct) auto

lemma assignmentAt_unique:
  assumes "assignmentAt s w"
  shows "matchAssignmentAt s = Some w"
proof -
  from assms obtain sp rest where s: "s = w @ sp @ '':='' @ rest" and w: "w \<noteq> []"
    "list_all isWordChar w" and sp: "list_all isWhiteSpace sp"
    by (auto simp add: assignmentAt_def)
  let ?r = "sp @ CHR '':'' # CHR ''='' # rest"
  have r: "?r = [] \<or> \<not> isWordChar (hd ?r)" by (rule white_then_colon [OF sp])
  have t: "takeWhile isWordChar s = w" "dropWhile isWordChar s = ?r"
    using run_split [OF w(2) r] s by simp_all
  have "dropWhile isWhiteSpace ?r = '':='' @ rest"
    using run_split(2) [OF sp, of "'':='' @ rest"] by (simp add: colon_class)
  then show ?thesis using t w(1) by (simp add: matchAssignmentAt_def Let_def)
qed

lemma matchAssignmentAt_sound:
  assumes "matchAssignmentAt s = Some w"
  shows "assignmentAt s w"
proof -
  let ?r = "dropWhile isWordChar s"
  have w: "w = takeWhile isWordChar s" "w \<noteq> []"
    and p: "startsWith (dropWhile isWhiteSpace ?r) '':=''"
    using assms by (auto simp add: matchAssignmentAt_def Let_def split: if_splits)
  from startsWith_decompose [OF p] obtain rest where
    rest: "dropWhile isWhiteSpace ?r = '':='' @ rest" by blast
  have "s = w @ ?r" by (simp add: w(1))
  also have "?r = takeWhile isWhiteSpace ?r @ dropWhile isWhiteSpace ?r" by simp
  finally have "s = w @ takeWhile isWhiteSpace ?r @ '':='' @ rest" by (simp only: rest)
  moreover have "list_all isWordChar w" unfolding w(1) list_all_iff
    by (auto dest: set_takeWhileD)
  moreover have "list_all isWhiteSpace (takeWhile isWhiteSpace ?r)" unfolding list_all_iff
    by (auto dest: set_takeWhileD)
  ultimately show ?thesis using w(2) unfolding assignmentAt_def by blast
qed

lemma matchAssignmentAt_iff: "matchAssignmentAt s = Some w \<longleftrightarrow> assignmentAt s w"
  using assignmentAt_unique matchAssignmentAt_sound by blast

lemma startsWith_iff: "startsWith s p \<longleftrightarrow> (\<exists>r. s = p @ r)"
  using startsWith_decompose startsWith_append by blast

lemma includesStr_iff: "includesStr s p \<longleftrightarrow> (\<exists>a b. s = a @ p @ b)"
proof (induction s)
  case Nil
  show ?case by (auto simp add: startsWith_iff)
next
  case (Cons c cs)
  show ?case
  proof
    assume "includesStr (c # cs) p"
    then consider "startsWith (c # cs) p" | "includesStr cs p" by auto
    then show "\<exists>a b. c # cs = a @ p @ b"
    proof cases
      case 1
      then obtain r where "c # cs = p @ r" by (auto simp add: startsWith_iff)
      then have "c # cs = [] @ p @ r" by simp
      then show ?thesis by blast
    next
      case 2
      then obtain a b where "cs = a @ p @ b" using Cons.IH by blast
      then have "c # cs = (c # a) @ p @ b" by simp
      then show ?thesis by blast
    qed
  next
    assume "\<exists>a b. c # cs = a @ p @ b"
    then obtain a b where ab: "c # cs = a @ p @ b" by blast
    show "includesStr (c # cs) p"
    proof (cases a)
      case Nil
      then have "startsWith (c # cs) p" using ab by (auto simp add: startsWith_iff)
      then show ?thesis by simp
    next
      case (Cons x a')
      then have "cs = a' @ p @ b" using ab by simp
      then have "includesStr cs p" using Cons.IH by blast
      then show ?thesis by simp
    qed
  qed
qed

lemma dotStarThen_iff:
  "dotStarThen p s \<longleftrightarrow>
     (\<exists>m b. s = m @ p @ b \<and> list_all (\<lambda>c. \<not> isLineTerminator c) m)"
proof (induction s)
  case Nil
  show ?case by (auto simp add: startsWith_iff)
next
  case (Cons c cs)
  show ?case
  proof
    assume "dotStarThen p (c # cs)"
    then consider "startsWith (c # cs) p" | "\<not> isLineTerminator c" "dotStarThen p cs" by auto
    then show "\<exists>m b. c # cs = m @ p @ b \<and> list_all (\<lambda>c. \<not> isLineTerminator c) m"
    proof cases
      case 1
      then obtain r where "c # cs = p @ r" by (auto simp add: startsWith_iff)
      then have "c # cs = [] @ p @ r \<and> list_all (\<lambda>c. \<not> isLineTerminator c) []" by simp
      then show ?thesis by blast
    next
      case 2
      then obtain m b where "cs = m @ p @ b" "list_all (\<lambda>c. \<not> isLineTerminator c) m"
        using Cons.IH by blast
      then have "c # cs = (c # m) @ p @ b \<and> list_all (\<lambda>c. \<not> isLineTerminator c) (c # m)"
        using 2(1) by simp
      then show ?thesis by blast
    qed
  next
    assume "\<exists>m b. c # cs = m @ p @ b \<and> list_all (\<lambda>c. \<not> isLineTerminator c) m"
    then obtain m b where mb: "c # cs = m @ p @ b" "list_all (\<lambda>c. \<not> isLineTerminator c) m"
      by blast
    show "dotStarThen p (c # cs)"
    proof (cases m)
      case Nil
      then have "startsWith (c # cs) p" using mb(1) by (auto simp add: startsWith_iff)
      then show ?thesis by simp
    next
      case (Cons x m')
      then have "cs = m' @ p @ b" "list_all (\<lambda>c. \<not> isLineTerminator c) m'" "\<not> isLineTerminator c"
        using mb by simp_all
      then have "dotStarThen p cs" "\<not> isLineTerminator c" using Cons.IH by blast+
      then show ?thesis by simp
    qed
  qed
qed

lemma includesSeq_iff:
  "includesSeq s p q \<longleftrightarrow>
     (\<exists>a m b. s = a @ p @ m @ q @ b \<and> list_all (\<lambda>c. \<not> isLineTerminator c) m)"
proof (induction s)
  case Nil
  show ?case by (auto simp add: startsWith_iff dotStarThen_iff)
next
  case (Cons c cs)
  have here: "(startsWith (c # cs) p \<and> dotStarThen q (drop (length p) (c # cs))) \<longleftrightarrow>
     (\<exists>m b. c # cs = p @ m @ q @ b \<and> list_all (\<lambda>c. \<not> isLineTerminator c) m)"
  proof
    assume a: "startsWith (c # cs) p \<and> dotStarThen q (drop (length p) (c # cs))"
    then obtain r where r: "c # cs = p @ r" by (auto simp add: startsWith_iff)
    then have "drop (length p) (c # cs) = r" by simp
    then have "dotStarThen q r" using a by simp
    then obtain m b where "r = m @ q @ b" "list_all (\<lambda>c. \<not> isLineTerminator c) m"
      by (auto simp add: dotStarThen_iff)
    then show "\<exists>m b. c # cs = p @ m @ q @ b \<and> list_all (\<lambda>c. \<not> isLineTerminator c) m"
      using r by blast
  next
    assume "\<exists>m b. c # cs = p @ m @ q @ b \<and> list_all (\<lambda>c. \<not> isLineTerminator c) m"
    then obtain m b where mb: "c # cs = p @ m @ q @ b"
      "list_all (\<lambda>c. \<not> isLineTerminator c) m" by blast
    have "startsWith (c # cs) p" unfolding startsWith_iff using mb(1) by blast
    moreover have "drop (length p) (c # cs) = m @ q @ b" using mb(1) by simp
    then have "dotStarThen q (drop (length p) (c # cs))"
      unfolding dotStarThen_iff using mb(2) by blast
    ultimately show "startsWith (c # cs) p \<and> dotStarThen q (drop (length p) (c # cs))"
      by blast
  qed
  show ?case
  proof
    assume "includesSeq (c # cs) p q"
    then consider "startsWith (c # cs) p \<and> dotStarThen q (drop (length p) (c # cs))"
      | "includesSeq cs p q" by auto
    then show "\<exists>a m b. c # cs = a @ p @ m @ q @ b \<and> list_all (\<lambda>c. \<not> isLineTerminator c) m"
    proof cases
      case 1
      then obtain m b where "c # cs = [] @ p @ m @ q @ b" "list_all (\<lambda>c. \<not> isLineTerminator c) m"
        using here by auto
      then show ?thesis by blast
    next
      case 2
      then obtain a m b where "cs = a @ p @ m @ q @ b" "list_all (\<lambda>c. \<not> isLineTerminator c) m"
        using Cons.IH by blast
      then have "c # cs = (c # a) @ p @ m @ q @ b \<and> list_all (\<lambda>c. \<not> isLineTerminator c) m"
        by simp
      then show ?thesis by blast
    qed
  next
    assume "\<exists>a m b. c # cs = a @ p @ m @ q @ b \<and> list_all (\<lambda>c. \<not> isLineTerminator c) m"
    then obtain a m b where amb: "c # cs = a @ p @ m @ q @ b"
      "list_all (\<lambda>c. \<not> isLineTerminator c) m" by blast
    show "includesSeq (c # cs) p q"
    proof (cases a)
      case Nil
      then have "startsWith (c # cs) p \<and> dotStarThen q (drop (length p) (c # cs))"
        using amb here by auto
      then show ?thesis by simp
    next
      case (Cons x a')
      then have "cs = a' @ p @ m @ q @ b" using amb(1) by simp
      then have "includesSeq cs p q" using Cons.IH amb(2) by blast
      then show ?thesis by simp
    qed
  qed
qed

lemma matchAssignment_None:
  "matchAssignment s = None \<longleftrightarrow> (\<forall>k w. \<not> assignmentAt (drop k s) w)"
proof (induction s)
  case Nil
  show ?case by (simp add: assignmentAt_def)
next
  case (Cons c cs)
  have "(\<forall>k w. \<not> assignmentAt (drop k (c # cs)) w) \<longleftrightarrow>
        (\<forall>w. \<not> assignmentAt (c # cs) w) \<and> (\<forall>k w. \<not> assignmentAt (drop k cs) w)"
  proof
    assume a: "\<forall>k w. \<not> assignmentAt (drop k (c # cs)) w"
    have "\<forall>w. \<not> assignmentAt (c # cs) w" using a [rule_format, of 0] by simp
    moreover have "\<forall>k w. \<not> assignmentAt (drop k cs) w"
    proof (intro allI)
      fix k w show "\<not> assignmentAt (drop k cs) w" using a [rule_format, of "Suc k" w] by simp
    qed
    ultimately show "(\<forall>w. \<not> assignmentAt (c # cs) w) \<and> (\<forall>k w. \<not> assignmentAt (drop k cs) w)"
      by blast
  next
    assume b: "(\<forall>w. \<not> assignmentAt (c # cs) w) \<and> (\<forall>k w. \<not> assignmentAt (drop k cs) w)"
    show "\<forall>k w. \<not> assignmentAt (drop k (c # cs)) w"
    proof (intro allI)
      fix k w show "\<not> assignmentAt (drop k (c # cs)) w" using b by (cases k) simp_all
    qed
  qed
  moreover have "matchAssignmentAt (c # cs) = None \<longleftrightarrow> (\<forall>w. \<not> assignmentAt (c # cs) w)"
    using matchAssignmentAt_iff [of "c # cs"] by (cases "matchAssignmentAt (c # cs)") auto
  ultimately show ?case using Cons.IH by (auto split: option.split)
qed

lemma matchAssignment_Some:
  "matchAssignment s = Some w \<longleftrightarrow>
     (\<exists>k. assignmentAt (drop k s) w \<and> (\<forall>j<k. \<forall>w'. \<not> assignmentAt (drop j s) w'))"
proof (induction s)
  case Nil
  show ?case by (simp add: assignmentAt_def)
next
  case (Cons c cs)
  show ?case
  proof (cases "matchAssignmentAt (c # cs)")
    case (Some w0)
    then have at: "assignmentAt (c # cs) w0" by (simp add: matchAssignmentAt_iff)
    have "(\<exists>k. assignmentAt (drop k (c # cs)) w \<and> (\<forall>j<k. \<forall>w'. \<not> assignmentAt (drop j (c # cs)) w'))
          \<longleftrightarrow> w = w0"
    proof
      assume "\<exists>k. assignmentAt (drop k (c # cs)) w \<and> (\<forall>j<k. \<forall>w'. \<not> assignmentAt (drop j (c # cs)) w')"
      then obtain k where k: "assignmentAt (drop k (c # cs)) w"
        "\<forall>j<k. \<forall>w'. \<not> assignmentAt (drop j (c # cs)) w'" by blast
      have "k = 0"
      proof (rule ccontr)
        assume "k \<noteq> 0"
        then have "\<not> assignmentAt (drop 0 (c # cs)) w0" using k(2) by blast
        then show False using at by simp
      qed
      then have "assignmentAt (c # cs) w" using k(1) by simp
      then show "w = w0" using Some by (simp add: matchAssignmentAt_iff [symmetric])
    next
      assume "w = w0"
      then have "assignmentAt (drop 0 (c # cs)) w \<and> (\<forall>j<0. \<forall>w'. \<not> assignmentAt (drop j (c # cs)) w')"
        using at by simp
      then show "\<exists>k. assignmentAt (drop k (c # cs)) w \<and> (\<forall>j<k. \<forall>w'. \<not> assignmentAt (drop j (c # cs)) w')"
        by blast
    qed
    then show ?thesis using Some by auto
  next
    case None
    then have no: "\<forall>w'. \<not> assignmentAt (c # cs) w'"
      using matchAssignmentAt_iff [of "c # cs"] by auto
    have "(\<exists>k. assignmentAt (drop k (c # cs)) w \<and> (\<forall>j<k. \<forall>w'. \<not> assignmentAt (drop j (c # cs)) w'))
          \<longleftrightarrow> (\<exists>k. assignmentAt (drop k cs) w \<and> (\<forall>j<k. \<forall>w'. \<not> assignmentAt (drop j cs) w'))"
    proof
      assume "\<exists>k. assignmentAt (drop k (c # cs)) w \<and> (\<forall>j<k. \<forall>w'. \<not> assignmentAt (drop j (c # cs)) w')"
      then obtain k where k: "assignmentAt (drop k (c # cs)) w"
        "\<forall>j<k. \<forall>w'. \<not> assignmentAt (drop j (c # cs)) w'" by blast
      then obtain k' where k': "k = Suc k'" using no by (cases k) auto
      have "assignmentAt (drop k' cs) w" using k(1) k' by simp
      moreover have "\<forall>j<k'. \<forall>w'. \<not> assignmentAt (drop j cs) w'"
      proof (intro allI impI)
        fix j w' assume "j < k'"
        then have "\<not> assignmentAt (drop (Suc j) (c # cs)) w'" using k(2) k' by blast
        then show "\<not> assignmentAt (drop j cs) w'" by simp
      qed
      ultimately show "\<exists>k. assignmentAt (drop k cs) w \<and> (\<forall>j<k. \<forall>w'. \<not> assignmentAt (drop j cs) w')"
        by blast
    next
      assume "\<exists>k. assignmentAt (drop k cs) w \<and> (\<forall>j<k. \<forall>w'. \<not> assignmentAt (drop j cs) w')"
      then obtain k where k: "assignmentAt (drop k cs) w"
        "\<forall>j<k. \<forall>w'. \<not> assignmentAt (drop j cs) w'" by blast
      have "assignmentAt (drop (Suc k) (c # cs)) w" using k(1) by simp
      moreover have "\<forall>j<Suc k. \<forall>w'. \<not> assignmentAt (drop j (c # cs)) w'"
      proof (intro allI impI)
        fix j w' assume "j < Suc k"
        then show "\<not> assignmentAt (drop j (c # cs)) w'" using no k(2) by (cases j) simp_all
      qed
      ultimately show "\<exists>k. assignmentAt (drop k (c # cs)) w
          \<and> (\<forall>j<k. \<forall>w'. \<not> assignmentAt (drop j (c # cs)) w')" by blast
    qed
    then show ?thesis using None Cons.IH by simp
  qed
qed

lemma split_lines_not_Nil: "split_lines code \<noteq> []"
  by (induction code) (auto split: list.splits)

lemma split_lines_join:
  "concat (map (\<lambda>l. l @ [CHR 0x0A]) (split_lines code)) = code @ [CHR 0x0A]"
  by (induction code) (auto split: list.splits)

lemma split_lines_no_newline: "\<forall>l \<in> set (split_lines code). CHR 0x0A \<notin> set l"
  by (induction code) (auto split: list.splits)

lemma white_then_word:
  assumes "list_all isWhiteSpace sp" and "d \<noteq> []" and "list_all isWordChar d"
  shows "d @ r = [] \<or> \<not> isWhiteSpace (hd (d @ r))"
  using assms by (cases d) (auto dest: word_not_white)

lemma colon_first: "'':'' @ r = [] \<or> \<not> isWhiteSpace (hd ('':'' @ r))"
  by (simp add: colon_class)

lemma matchDeclaration_sound:
  assumes "matchDeclaration s = Some (v, d)"
  shows "declarationAt s v d"
proof -
  let ?r1 = "dropWhile isWordChar s"
  let ?r2 = "dropWhile isWhiteSpace ?r1"
  have v: "v = takeWhile isWordChar s" "v \<noteq> []"
    using assms by (auto simp add: matchDeclaration_def Let_def split: if_splits list.splits)
  obtain r where r: "?r2 = CHR '':'' # r"
    and d: "d = takeWhile isWordChar (dropWhile isWhiteSpace r)" "d \<noteq> []"
    using assms by (auto simp add: matchDeclaration_def Let_def split: if_splits list.splits)
  let ?r3 = "dropWhile isWhiteSpace r"
  have "s = v @ ?r1" by (simp add: v(1))
  also have "?r1 = takeWhile isWhiteSpace ?r1 @ ?r2" by simp
  also have "?r2 = '':'' @ r" by (simp add: r)
  also have "r = takeWhile isWhiteSpace r @ ?r3" by simp
  also have "?r3 = d @ dropWhile isWordChar ?r3" by (simp add: d(1))
  finally have "s = v @ takeWhile isWhiteSpace ?r1 @ '':'' @ takeWhile isWhiteSpace r
                    @ d @ dropWhile isWordChar ?r3" .
  moreover have "list_all isWordChar v" "list_all isWordChar d"
    unfolding v(1) d(1) list_all_iff by (auto dest: set_takeWhileD)
  moreover have "list_all isWhiteSpace (takeWhile isWhiteSpace ?r1)"
    "list_all isWhiteSpace (takeWhile isWhiteSpace r)"
    unfolding list_all_iff by (auto dest: set_takeWhileD)
  ultimately show ?thesis using v(2) d(2) unfolding declarationAt_def by blast
qed

lemma declarationAt_longest:
  assumes "declarationAt s v d"
  shows "\<exists>ext. matchDeclaration s = Some (v, d @ ext)"
proof -
  from assms obtain sp1 sp2 rest where s: "s = v @ sp1 @ '':'' @ sp2 @ d @ rest"
    and v: "v \<noteq> []" "list_all isWordChar v" and d: "d \<noteq> []" "list_all isWordChar d"
    and sp: "list_all isWhiteSpace sp1" "list_all isWhiteSpace sp2"
    by (auto simp add: declarationAt_def)
  let ?t = "sp2 @ d @ rest"
  have a: "takeWhile isWordChar s = v" "dropWhile isWordChar s = sp1 @ CHR '':'' # ?t"
    using run_split [OF v(2) white_then_colon [OF sp(1), of ?t]] s by simp_all
  have b: "dropWhile isWhiteSpace (sp1 @ CHR '':'' # ?t) = CHR '':'' # ?t"
    using run_split(2) [OF sp(1) colon_first [of ?t]] by simp
  have c: "dropWhile isWhiteSpace ?t = d @ rest"
    using run_split(2) [OF sp(2) white_then_word [OF sp(2) d, of rest]] by simp
  have e: "takeWhile isWordChar (d @ rest) = d @ takeWhile isWordChar rest"
    using d(2) by (simp add: takeWhile_append2 list_all_iff)
  have "matchDeclaration s = Some (v, d @ takeWhile isWordChar rest)"
    using v(1) d(1) by (simp add: matchDeclaration_def Let_def a b c e)
  then show ?thesis by blast
qed

lemma matchDeclaration_None:
  "matchDeclaration s = None \<longleftrightarrow> (\<forall>v d. \<not> declarationAt s v d)"
proof
  assume n: "matchDeclaration s = None"
  show "\<forall>v d. \<not> declarationAt s v d"
  proof (intro allI notI)
    fix v d assume "declarationAt s v d"
    then show False using declarationAt_longest n by fastforce
  qed
next
  assume a: "\<forall>v d. \<not> declarationAt s v d"
  show "matchDeclaration s = None"
  proof (cases "matchDeclaration s")
    case None
    then show ?thesis .
  next
    case (Some p)
    then have "declarationAt s (fst p) (snd p)" by (simp add: matchDeclaration_sound)
    then show ?thesis using a by blast
  qed
qed

section \<open>What the steps after the scan do to the report\<close>

lemma checkUnused_eq:
  "checkUnused vs st =
     st\<lparr>results := (results st)\<lparr>warnings := warnings (results st)
        @ map unusedWarning (filter (\<lambda>v. v \<notin> set (usedVariables st)) vs)\<rparr>\<rparr>"
  by (induction vs arbitrary: st) (simp_all add: pushWarning_def)

lemma addSuggestions_eq:
  "addSuggestions code st =
     st\<lparr>results := (results st)\<lparr>suggestions := suggestions (results st)
        @ finalSuggestions code (emergencyStop (safetyChecks (results st)))\<rparr>\<rparr>"
  by (simp add: addSuggestions_def finalSuggestions_def pushSuggestion_def Let_def)

lemma checkUnmatched_eq:
  "checkUnmatched st =
     st\<lparr>results := (results st)\<lparr>errors := errors (results st)
          @ (if braceCount st \<noteq> 0 then [unmatchedError] else []),
        isValid := isValid (results st) \<and> braceCount st = 0\<rparr>\<rparr>"
  by (simp add: checkUnmatched_def pushError_def invalidate_def)

lemma calculateScores_fields:
  "isValid (calculateScores r) = isValid r"
  "errors (calculateScores r) = errors r" "warnings (calculateScores r) = warnings r"
  "suggestions (calculateScores r) = suggestions r"
  "safetyChecks (calculateScores r) = safetyChecks r"
  "syntaxScore (calculateScores r) =
     max 0 (100 - 15 * int (length (errors r)) - 5 * int (length (warnings r)))"
  "logicScore (calculateScores r) =
     max 0 (100 - 20 * int (length (filter (\<lambda>e. category e = Semantics) (errors r))))"
  "safetyScore (calculateScores r) = min 100 (20 * safetyFeatures (safetyChecks r))"
  by (simp_all add: calculateScores_def Let_def mult.commute)

lemma finish_errors:
  "errors (finish code st) =
     errors (results st) @ (if braceCount st \<noteq> 0 then [unmatchedError] else [])"
  unfolding finish_def calculateScores_fields addSuggestions_eq checkUnused_eq checkUnmatched_eq
  by simp

lemma finish_isValid:
  "isValid (finish code st) = (isValid (results st) \<and> braceCount st = 0)"
  unfolding finish_def calculateScores_fields addSuggestions_eq checkUnused_eq checkUnmatched_eq
  by simp

lemma finish_warnings:
  "warnings (finish code st) =
     warnings (results st)
     @ map unusedWarning (filter (\<lambda>v. v \<notin> set (usedVariables st)) (declaredVariables st))"
  unfolding finish_def calculateScores_fields addSuggestions_eq checkUnused_eq checkUnmatched_eq
  by simp

lemma finish_safetyChecks:
  "safetyChecks (finish code st) = safetyChecks (results st)"
  unfolding finish_def calculateScores_fields addSuggestions_eq checkUnused_eq checkUnmatched_eq
  by simp

lemma finish_suggestions:
  "suggestions (finish code st) =
     suggestions (results st)
     @ finalSuggestions code (emergencyStop (safetyChecks (results st)))"
  unfolding finish_def calculateScores_fields addSuggestions_eq checkUnused_eq checkUnmatched_eq
  by simp

lemma finish_scores:
  "syntaxScore (finish code st) =
     max 0 (100 - 15 * int (length (errors (finish code st)))
              - 5 * int (length (warnings (finish code st))))"
  "logicScore (finish code st) =
     max 0 (100 - 20 * int (length (filter (\<lambda>e. category e = Semantics) (errors (finish code st)))))"
  "safetyScore (finish code st) = min 100 (20 * safetyFeatures (safetyChecks (finish code st)))"
  unfolding finish_def by (simp_all only: calculateScores_fields)

section \<open>What each block of the callback does\<close>

lemma trackSections_braceCount [simp]: "braceCount (trackSections u st) = braceCount st"
  by (simp add: trackSections_def Let_def updCompliance_def)

lemma trackSections_usedVariables [simp]: "usedVariables (trackSections u st) = usedVariables st"
  by (simp add: trackSections_def Let_def updCompliance_def)

lemma trackSections_invariant: "scanInvariant st \<Longrightarrow> scanInvariant (trackSections u st)"
  by (simp add: trackSections_def Let_def updCompliance_def scanInvariant_def)

lemma trackSections_grows: "grows st (trackSections u st)"
  by (auto simp add: trackSections_def Let_def updCompliance_def grows_def)

lemma checkDataType_braceCount [simp]: "braceCount (checkDataType n d st) = braceCount st"
  by (simp add: checkDataType_def updCompliance_def pushWarning_def)

lemma checkDataType_usedVariables [simp]: "usedVariables (checkDataType n d st) = usedVariables st"
  by (simp add: checkDataType_def updCompliance_def pushWarning_def)

lemma checkDataType_invariant: "scanInvariant st \<Longrightarrow> scanInvariant (checkDataType n d st)"
  by (simp add: checkDataType_def updCompliance_def pushWarning_def scanInvariant_def nonStandardTypeWarning_def)

lemma checkDataType_grows: "grows st (checkDataType n d st)"
  by (auto simp add: checkDataType_def updCompliance_def pushWarning_def grows_def)

lemma checkNaming_braceCount [simp]: "braceCount (checkNaming n v st) = braceCount st"
  by (simp add: checkNaming_def updCompliance_def pushWarning_def)

lemma checkNaming_usedVariables [simp]: "usedVariables (checkNaming n v st) = usedVariables st"
  by (simp add: checkNaming_def updCompliance_def pushWarning_def)

lemma checkNaming_invariant: "scanInvariant st \<Longrightarrow> scanInvariant (checkNaming n v st)"
  by (simp add: checkNaming_def updCompliance_def pushWarning_def scanInvariant_def namingWarning_def)

lemma checkNaming_grows: "grows st (checkNaming n v st)"
  by (auto simp add: checkNaming_def updCompliance_def pushWarning_def grows_def)

lemma checkReserved_braceCount [simp]: "braceCount (checkReserved n v st) = braceCount st"
  by (simp add: checkReserved_def invalidate_def pushError_def)

lemma checkReserved_usedVariables [simp]: "usedVariables (checkReserved n v st) = usedVariables st"
  by (simp add: checkReserved_def invalidate_def pushError_def)

lemma checkReserved_invariant: "scanInvariant st \<Longrightarrow> scanInvariant (checkReserved n v st)"
  by (simp add: checkReserved_def invalidate_def pushError_def scanInvariant_def scanError_def reservedWordError_def apostrophe_def)

lemma checkReserved_grows: "grows st (checkReserved n v st)"
  by (auto simp add: checkReserved_def invalidate_def pushError_def grows_def)

lemma checkIf_braceCount [simp]: "braceCount (checkIf n t u st) = braceCount st"
  by (simp add: checkIf_def invalidate_def pushError_def)

lemma checkIf_usedVariables [simp]: "usedVariables (checkIf n t u st) = usedVariables st"
  by (simp add: checkIf_def invalidate_def pushError_def)

lemma checkIf_invariant: "scanInvariant st \<Longrightarrow> scanInvariant (checkIf n t u st)"
  by (simp add: checkIf_def invalidate_def pushError_def scanInvariant_def scanError_def syntaxError_def)

lemma checkIf_grows: "grows st (checkIf n t u st)"
  by (auto simp add: checkIf_def invalidate_def pushError_def grows_def)

lemma checkFor_braceCount [simp]: "braceCount (checkFor n u st) = braceCount st"
  by (simp add: checkFor_def invalidate_def pushError_def)

lemma checkFor_usedVariables [simp]: "usedVariables (checkFor n u st) = usedVariables st"
  by (simp add: checkFor_def invalidate_def pushError_def)

lemma checkFor_invariant: "scanInvariant st \<Longrightarrow> scanInvariant (checkFor n u st)"
  by (simp add: checkFor_def invalidate_def pushError_def scanInvariant_def scanError_def syntaxError_def)

lemma checkFor_grows: "grows st (checkFor n u st)"
  by (auto simp add: checkFor_def invalidate_def pushError_def grows_def)

lemma checkWhile_braceCount [simp]: "braceCount (checkWhile n u st) = braceCount st"
  by (simp add: checkWhile_def invalidate_def pushError_def)

lemma checkWhile_usedVariables [simp]: "usedVariables (checkWhile n u st) = usedVariables st"
  by (simp add: checkWhile_def invalidate_def pushError_def)

lemma checkWhile_invariant: "scanInvariant st \<Longrightarrow> scanInvariant (checkWhile n u st)"
  by (simp add: checkWhile_def invalidate_def pushError_def scanInvariant_def scanError_def syntaxError_def)

lemma checkWhile_grows: "grows st (checkWhile n u st)"
  by (auto simp add: checkWhile_def invalidate_def pushError_def grows_def)

lemma checkCase_braceCount [simp]: "braceCount (checkCase n u st) = braceCount st"
  by (simp add: checkCase_def invalidate_def pushError_def)

lemma checkCase_usedVariables [simp]: "usedVariables (checkCase n u st) = usedVariables st"
  by (simp add: checkCase_def invalidate_def pushError_def)

lemma checkCase_invariant: "scanInvariant st \<Longrightarrow> scanInvariant (checkCase n u st)"
  by (simp add: checkCase_def invalidate_def pushError_def scanInvariant_def scanError_def syntaxError_def)

lemma checkCase_grows: "grows st (checkCase n u st)"
  by (auto simp add: checkCase_def invalidate_def pushError_def grows_def)

lemma checkAssignmentOperator_braceCount [simp]: "braceCount (checkAssignmentOperator n t u st) = braceCount st"
  by (simp add: checkAssignmentOperator_def pushWarning_def)

lemma checkAssignmentOperator_usedVariables [simp]: "usedVariables (checkAssignmentOperator n t u st) = usedVariables st"
  by (simp add: checkAssignmentOperator_def pushWarning_def)

lemma checkAssignmentOperator_invariant: "scanInvariant st \<Longrightarrow> scanInvariant (checkAssignmentOperator n t u st)"
  by (simp add: checkAssignmentOperator_def pushWarning_def scanInvariant_def assignmentWarning_def)

lemma checkAssignmentOperator_grows: "grows st (checkAssignmentOperator n t u st)"
  by (auto simp add: checkAssignmentOperator_def pushWarning_def grows_def)

lemma checkSemicolon_braceCount [simp]: "braceCount (checkSemicolon n t u st) = braceCount st"
  by (simp add: checkSemicolon_def pushWarning_def)

lemma checkSemicolon_usedVariables [simp]: "usedVariables (checkSemicolon n t u st) = usedVariables st"
  by (simp add: checkSemicolon_def pushWarning_def)

lemma checkSemicolon_invariant: "scanInvariant st \<Longrightarrow> scanInvariant (checkSemicolon n t u st)"
  by (simp add: checkSemicolon_def pushWarning_def scanInvariant_def semicolonWarning_def)

lemma checkSemicolon_grows: "grows st (checkSemicolon n t u st)"
  by (auto simp add: checkSemicolon_def pushWarning_def grows_def)

lemma trackUsage_braceCount [simp]: "braceCount (trackUsage t st) = braceCount st"
  by (simp add: trackUsage_def split: option.split)

lemma trackUsage_invariant: "scanInvariant st \<Longrightarrow> scanInvariant (trackUsage t st)"
  by (simp add: trackUsage_def scanInvariant_def split: option.split)

lemma trackUsage_grows: "grows st (trackUsage t st)"
  by (auto simp add: trackUsage_def grows_def split: option.split)

lemma safetyChecksOfLine_braceCount [simp]: "braceCount (safetyChecksOfLine t st) = braceCount st"
  by (simp add: safetyChecksOfLine_def Let_def updSafety_def)

lemma safetyChecksOfLine_usedVariables [simp]: "usedVariables (safetyChecksOfLine t st) = usedVariables st"
  by (simp add: safetyChecksOfLine_def Let_def updSafety_def)

lemma safetyChecksOfLine_invariant: "scanInvariant st \<Longrightarrow> scanInvariant (safetyChecksOfLine t st)"
  by (simp add: safetyChecksOfLine_def Let_def updSafety_def scanInvariant_def)

lemma safetyChecksOfLine_grows: "grows st (safetyChecksOfLine t st)"
  by (simp add: safetyChecksOfLine_def Let_def updSafety_def grows_def)

lemma checkStructure_braceCount [simp]: "braceCount (checkStructure u st) = braceCount st"
  by (simp add: checkStructure_def updCompliance_def)

lemma checkStructure_usedVariables [simp]: "usedVariables (checkStructure u st) = usedVariables st"
  by (simp add: checkStructure_def updCompliance_def)

lemma checkStructure_invariant: "scanInvariant st \<Longrightarrow> scanInvariant (checkStructure u st)"
  by (simp add: checkStructure_def updCompliance_def scanInvariant_def)

lemma checkStructure_grows: "grows st (checkStructure u st)"
  by (auto simp add: checkStructure_def updCompliance_def grows_def)

lemma countParentheses_usedVariables [simp]: "usedVariables (countParentheses t st) = usedVariables st"
  by (simp add: countParentheses_def)

lemma countParentheses_invariant: "scanInvariant st \<Longrightarrow> scanInvariant (countParentheses t st)"
  by (simp add: countParentheses_def scanInvariant_def)

lemma countParentheses_grows: "grows st (countParentheses t st)"
  by (auto simp add: countParentheses_def grows_def)

lemma grows_refl: "grows st st"
  by (simp add: grows_def)

lemma grows_trans [trans]: "grows a b \<Longrightarrow> grows b c \<Longrightarrow> grows a c"
  unfolding grows_def by (meson order_trans)

lemma parseDeclaration_braceCount [simp]:
  "braceCount (parseDeclaration n t u st) = braceCount st"
  by (simp add: parseDeclaration_def split: option.split prod.split)

lemma parseDeclaration_usedVariables [simp]:
  "usedVariables (parseDeclaration n t u st) = usedVariables st"
  by (simp add: parseDeclaration_def split: option.split prod.split)

lemma declare_invariant:
  "scanInvariant st \<Longrightarrow> scanInvariant (st\<lparr>declaredVariables := vs\<rparr>)"
  by (simp add: scanInvariant_def)

lemma declare_grows: "grows st (st\<lparr>declaredVariables := vs\<rparr>)"
  by (simp add: grows_def)

lemma parseDeclaration_invariant:
  "scanInvariant st \<Longrightarrow> scanInvariant (parseDeclaration n t u st)"
  by (simp add: parseDeclaration_def checkReserved_invariant checkNaming_invariant
      checkDataType_invariant declare_invariant split: option.split prod.split)

lemma parseDeclaration_grows: "grows st (parseDeclaration n t u st)"
proof (cases "inVarSection st \<and> includesStr t '':'' \<and> \<not> startsWith u ''VAR''")
  case False
  then show ?thesis by (auto simp add: parseDeclaration_def grows_refl)
next
  case True
  show ?thesis
  proof (cases "matchDeclaration t")
    case None
    with True show ?thesis by (simp add: parseDeclaration_def grows_refl)
  next
    case (Some p)
    obtain v d where p: "p = (v, d)" by (cases p)
    let ?s0 = "st\<lparr>declaredVariables := setAdd (toUpperCase v) (declaredVariables st)\<rparr>"
    have "grows st ?s0" by (rule declare_grows)
    also have "grows ?s0 (checkDataType n d ?s0)" by (rule checkDataType_grows)
    also have "grows (checkDataType n d ?s0) (checkNaming n v (checkDataType n d ?s0))"
      by (rule checkNaming_grows)
    also have "grows (checkNaming n v (checkDataType n d ?s0))
                 (checkReserved n v (checkNaming n v (checkDataType n d ?s0)))"
      by (rule checkReserved_grows)
    finally show ?thesis using True Some p by (simp add: parseDeclaration_def)
  qed
qed

section \<open>The scan of a line and of all lines\<close>

lemma processLine_braceCount:
  "braceCount (processLine n t st) = braceCount st + lineBalance t"
  by (simp add: processLine_def Let_def countParentheses_def lineBalance_def)

lemma processLine_usedVariables:
  "usedVariables (processLine n t st) =
     (case matchAssignment t of
        None \<Rightarrow> usedVariables st
      | Some w \<Rightarrow> setAdd (toUpperCase w) (usedVariables st))"
  by (simp add: processLine_def Let_def trackUsage_def split: option.split)

lemma processLine_invariant:
  "scanInvariant st \<Longrightarrow> scanInvariant (processLine n t st)"
  unfolding processLine_def Let_def
  by (intro countParentheses_invariant checkStructure_invariant safetyChecksOfLine_invariant
      trackUsage_invariant checkSemicolon_invariant checkAssignmentOperator_invariant
      checkCase_invariant checkWhile_invariant checkFor_invariant checkIf_invariant
      parseDeclaration_invariant trackSections_invariant)

lemma after_usage_grows:
  "grows st (countParentheses t (checkStructure u (safetyChecksOfLine t (trackUsage t st))))"
  by (rule grows_trans [OF grows_trans [OF grows_trans [OF trackUsage_grows
      safetyChecksOfLine_grows] checkStructure_grows] countParentheses_grows])

lemma upto_operator_grows:
  "grows st (checkCase n u (checkWhile n u (checkFor n u (checkIf n t u
     (parseDeclaration n t u (trackSections u st))))))"
  by (rule grows_trans [OF grows_trans [OF grows_trans [OF grows_trans [OF grows_trans
      [OF trackSections_grows parseDeclaration_grows] checkIf_grows] checkFor_grows]
      checkWhile_grows] checkCase_grows])

lemma processLine_grows: "grows st (processLine n t st)"
proof -
  let ?u = "toUpperCase t"
  let ?a = "checkCase n ?u (checkWhile n ?u (checkFor n ?u (checkIf n t ?u
     (parseDeclaration n t ?u (trackSections ?u st)))))"
  let ?b = "checkSemicolon n t ?u (checkAssignmentOperator n t ?u ?a)"
  have "grows st ?a" by (rule upto_operator_grows)
  also have "grows ?a (checkAssignmentOperator n t ?u ?a)" by (rule checkAssignmentOperator_grows)
  also have "grows (checkAssignmentOperator n t ?u ?a) ?b" by (rule checkSemicolon_grows)
  also have "grows ?b (countParentheses t (checkStructure ?u (safetyChecksOfLine t (trackUsage t ?b))))"
    by (rule after_usage_grows)
  finally show ?thesis by (simp add: processLine_def Let_def)
qed

lemma processLine_assignmentWarning:
  assumes "assignmentOperatorMisuse t (toUpperCase t)"
  shows "assignmentWarning n \<in> set (warnings (results (processLine n t st)))"
proof -
  let ?u = "toUpperCase t"
  let ?a = "checkCase n ?u (checkWhile n ?u (checkFor n ?u (checkIf n t ?u
     (parseDeclaration n t ?u (trackSections ?u st)))))"
  let ?c = "checkAssignmentOperator n t ?u ?a"
  let ?b = "checkSemicolon n t ?u ?c"
  have in_c: "assignmentWarning n \<in> set (warnings (results ?c))"
    using assms by (simp add: checkAssignmentOperator_def pushWarning_def)
  have "grows ?c ?b" by (rule checkSemicolon_grows)
  also have "grows ?b (countParentheses t (checkStructure ?u (safetyChecksOfLine t (trackUsage t ?b))))"
    by (rule after_usage_grows)
  finally have "grows ?c (processLine n t st)" by (simp add: processLine_def Let_def)
  with in_c show ?thesis by (auto simp add: grows_def)
qed

lemma safetyChecksOfLine_flags:
  "testEmergencyStop t \<Longrightarrow> emergencyStop (safetyChecks (results (safetyChecksOfLine t st)))"
  "testFailSafe t \<Longrightarrow> failSafeMechanisms (safetyChecks (results (safetyChecksOfLine t st)))"
  "testWatchdog t \<Longrightarrow> watchdogTimer (safetyChecks (results (safetyChecksOfLine t st)))"
  by (simp_all add: safetyChecksOfLine_def Let_def updSafety_def)

lemma processLine_flags:
  "testEmergencyStop t \<Longrightarrow> emergencyStop (safetyChecks (results (processLine n t st)))"
  "testFailSafe t \<Longrightarrow> failSafeMechanisms (safetyChecks (results (processLine n t st)))"
  "testWatchdog t \<Longrightarrow> watchdogTimer (safetyChecks (results (processLine n t st)))"
proof -
  let ?u = "toUpperCase t"
  let ?b = "trackUsage t (checkSemicolon n t ?u (checkAssignmentOperator n t ?u
     (checkCase n ?u (checkWhile n ?u (checkFor n ?u (checkIf n t ?u
     (parseDeclaration n t ?u (trackSections ?u st))))))))"
  have "grows (safetyChecksOfLine t ?b) (checkStructure ?u (safetyChecksOfLine t ?b))"
    by (rule checkStructure_grows)
  also have "grows (checkStructure ?u (safetyChecksOfLine t ?b))
      (countParentheses t (checkStructure ?u (safetyChecksOfLine t ?b)))"
    by (rule countParentheses_grows)
  finally have g: "grows (safetyChecksOfLine t ?b) (processLine n t st)"
    by (simp add: processLine_def Let_def)
  show "testEmergencyStop t \<Longrightarrow> emergencyStop (safetyChecks (results (processLine n t st)))"
    using g safetyChecksOfLine_flags(1) [of t ?b] by (simp add: grows_def)
  show "testFailSafe t \<Longrightarrow> failSafeMechanisms (safetyChecks (results (processLine n t st)))"
    using g safetyChecksOfLine_flags(2) [of t ?b] by (simp add: grows_def)
  show "testWatchdog t \<Longrightarrow> watchdogTimer (safetyChecks (results (processLine n t st)))"
    using g safetyChecksOfLine_flags(3) [of t ?b] by (simp add: grows_def)
qed

lemma scanLine_invariant: "scanInvariant st \<Longrightarrow> scanInvariant (scanLine i l st)"
  by (simp add: scanLine_def Let_def processLine_invariant)

lemma scanLine_grows: "grows st (scanLine i l st)"
  by (simp add: scanLine_def Let_def processLine_grows grows_refl)

lemma forEachLine_invariant:
  "scanInvariant st \<Longrightarrow> scanInvariant (forEachLine i ls st)"
  by (induction ls arbitrary: i st) (simp_all add: scanLine_invariant)

lemma forEachLine_grows: "grows st (forEachLine i ls st)"
proof (induction ls arbitrary: i st)
  case Nil
  show ?case by (simp add: grows_refl)
next
  case (Cons l ls)
  have "grows st (scanLine i l st)" by (rule scanLine_grows)
  also have "grows (scanLine i l st) (forEachLine (Suc i) ls (scanLine i l st))"
    by (rule Cons.IH)
  finally show ?case by simp
qed

lemma forEachLine_append:
  "forEachLine i (xs @ ys) st = forEachLine (i + length xs) ys (forEachLine i xs st)"
  by (induction xs arbitrary: i st) simp_all

lemma forEachLine_nth:
  assumes "k < length ls"
  shows "forEachLine i ls st =
     forEachLine (Suc (i + k)) (drop (Suc k) ls) (scanLine (i + k) (ls ! k) (forEachLine i (take k ls) st))"
proof -
  have "ls = take k ls @ (ls ! k) # drop (Suc k) ls"
    using assms by (simp add: id_take_nth_drop)
  then have "forEachLine i ls st = forEachLine i (take k ls @ (ls ! k) # drop (Suc k) ls) st"
    by simp
  also have "\<dots> = forEachLine (i + length (take k ls)) ((ls ! k) # drop (Suc k) ls)
                    (forEachLine i (take k ls) st)"
    by (rule forEachLine_append)
  finally show ?thesis using assms by simp
qed

lemma forEachLine_braceCount:
  "braceCount (forEachLine i ls st) =
     braceCount st + sum_list (map lineBalance (filter (\<lambda>t. \<not> skipLine t) (map trim ls)))"
  by (induction ls arbitrary: i st) (simp_all add: scanLine_def Let_def processLine_braceCount)

lemma forEachLine_foldl:
  "forEachLine i ls st =
     foldl (\<lambda>s (lineNum, t). processLine lineNum t s) st
       (filter (\<lambda>(lineNum, t). \<not> skipLine t) (enumerate (Suc i) (map trim ls)))"
  by (induction ls arbitrary: i st) (simp_all add: scanLine_def Let_def)

lemma initial_invariant: "scanInvariant initialState"
  by (simp add: scanInvariant_def initialState_def initialResults_def)

lemma scanLines_invariant: "scanInvariant (scanLines code)"
  unfolding scanLines_def by (rule forEachLine_invariant [OF initial_invariant])

lemma setAdd_set: "set (setAdd x xs) = insert x (set xs)"
  by (auto simp add: setAdd_def)

lemma scanLine_usedVariables:
  "set (usedVariables (scanLine i l st)) =
     set (usedVariables st)
     \<union> {toUpperCase w | w. \<not> skipLine (trim l) \<and> matchAssignment (trim l) = Some w}"
  by (auto simp add: scanLine_def Let_def processLine_usedVariables setAdd_set split: option.split)

lemma forEachLine_usedVariables:
  "set (usedVariables (forEachLine i ls st)) =
     set (usedVariables st)
     \<union> {toUpperCase w | l w. l \<in> set ls \<and> \<not> skipLine (trim l) \<and> matchAssignment (trim l) = Some w}"
proof (induction ls arbitrary: i st)
  case Nil
  show ?case by simp
next
  case (Cons l ls)
  show ?case
    unfolding forEachLine.simps Cons.IH scanLine_usedVariables by auto
qed

section \<open>From the scan to the report\<close>

lemma processed_line_grows:
  assumes "k < length ls" and "\<not> skipLine (trim (ls ! k))"
  shows "grows (processLine (Suc (i + k)) (trim (ls ! k)) (forEachLine i (take k ls) st))
           (forEachLine i ls st)"
proof -
  let ?s = "forEachLine i (take k ls) st"
  have "scanLine (i + k) (ls ! k) ?s = processLine (Suc (i + k)) (trim (ls ! k)) ?s"
    using assms(2) by (simp add: scanLine_def Let_def)
  then have "forEachLine i ls st =
      forEachLine (Suc (i + k)) (drop (Suc k) ls) (processLine (Suc (i + k)) (trim (ls ! k)) ?s)"
    using forEachLine_nth [OF assms(1), of i st] by simp
  then show ?thesis by (simp add: forEachLine_grows)
qed

lemma all_skipped:
  "\<forall>l \<in> set ls. skipLine (trim l) \<Longrightarrow> forEachLine i ls st = st"
  by (induction ls arbitrary: i) (simp_all add: scanLine_def Let_def)

lemma trim_white: "list_all isWhiteSpace s \<Longrightarrow> trim s = []"
proof -
  assume "list_all isWhiteSpace s"
  then have h: "dropWhile isWhiteSpace s = []"
    by (simp add: list_all_iff dropWhile_eq_Nil_conv)
  show ?thesis unfolding trim_def h by simp
qed

lemma split_lines_white:
  "list_all isWhiteSpace code \<Longrightarrow> \<forall>l \<in> set (split_lines code). list_all isWhiteSpace l"
  by (induction code) (auto split: list.splits)

lemma scanLines_white:
  assumes "list_all isWhiteSpace code"
  shows "scanLines code = initialState"
proof -
  have "\<forall>l \<in> set (split_lines code). skipLine (trim l)"
    using split_lines_white [OF assms] by (simp add: trim_white skipLine_def)
  then show ?thesis unfolding scanLines_def by (rule all_skipped)
qed

lemma scan_errors_type:
  "scanInvariant st \<Longrightarrow> list_all (\<lambda>e. type e = Error) (errors (results st))"
  by (simp add: scanInvariant_def list_all_iff scanError_def)

lemma scanLines_braceCount: "braceCount (scanLines code) = parenthesisBalance code"
  by (simp add: scanLines_def forEachLine_braceCount parenthesisBalance_def processedLines_def
      initialState_def)

lemma safetyFeatures_bounds: "0 \<le> safetyFeatures c"
  by (simp add: safetyFeatures_def)

lemma finalSuggestions_type: "list_all (\<lambda>g. type g = Info) (finalSuggestions code es)"
  by (simp add: finalSuggestions_def commentSuggestion_def emergencyStopSuggestion_def
      largeProgramSuggestion_def)

lemma finalSuggestions_stop:
  "emergencyStopSuggestion \<notin> set (finalSuggestions code True)"
  by (simp add: finalSuggestions_def commentSuggestion_def emergencyStopSuggestion_def
      largeProgramSuggestion_def)

lemma wellFormed_finish:
  assumes "scanInvariant st"
  shows "wellFormed (finish code st)"
proof -
  let ?r = "finish code st"
  have inv: "isValid (results st) = (errors (results st) = [])"
    "list_all scanError (errors (results st))"
    "list_all (\<lambda>w. type w = Warning) (warnings (results st))"
    "suggestions (results st) = []"
    using assms by (simp_all add: scanInvariant_def)
  have s1: "0 \<le> syntaxScore ?r \<and> syntaxScore ?r \<le> 100"
    unfolding finish_scores(1) by simp
  have s2: "0 \<le> logicScore ?r \<and> logicScore ?r \<le> 100"
    unfolding finish_scores(2) by simp
  have s3: "0 \<le> safetyScore ?r \<and> safetyScore ?r \<le> 100"
    unfolding finish_scores(3) using safetyFeatures_bounds [of "safetyChecks ?r"] by simp
  have v: "isValid ?r = (errors ?r = [])"
    by (simp add: finish_isValid finish_errors inv(1))
  have e: "list_all (\<lambda>e. type e = Error) (errors ?r)"
    using scan_errors_type [OF assms] by (simp add: finish_errors unmatchedError_def)
  have w: "list_all (\<lambda>w. type w = Warning) (warnings ?r)"
    using inv(3) by (auto simp add: finish_warnings list_all_iff unusedWarning_def)
  have g: "list_all (\<lambda>g. type g = Info) (suggestions ?r)"
    by (simp add: finish_suggestions inv(4) finalSuggestions_type)
  show ?thesis unfolding wellFormed_def using s1 s2 s3 v e w g by blast
qed

section \<open>The claims\<close>

lemma scan_to_report_grows:
  assumes "grows st (scanLines code)"
  shows "set (warnings (results st)) \<subseteq> set (warnings (performSTValidation code))"
    and "emergencyStop (safetyChecks (results st))
          \<Longrightarrow> emergencyStop (safetyChecks (performSTValidation code))"
    and "failSafeMechanisms (safetyChecks (results st))
          \<Longrightarrow> failSafeMechanisms (safetyChecks (performSTValidation code))"
    and "watchdogTimer (safetyChecks (results st))
          \<Longrightarrow> watchdogTimer (safetyChecks (performSTValidation code))"
  using assms
  by (auto simp add: grows_def performSTValidation_def finish_warnings finish_safetyChecks)

lemma report_errors:
  "errors (performSTValidation code) =
     errors (results (scanLines code))
     @ (if parenthesisBalance code \<noteq> 0 then [unmatchedError] else [])"
  by (simp add: performSTValidation_def finish_errors scanLines_braceCount)

lemma scan_errors: "list_all scanError (errors (results (scanLines code)))"
  using scanLines_invariant [of code] by (simp add: scanInvariant_def)

lemma report_wellFormed: "wellFormed (performSTValidation code)"
  unfolding performSTValidation_def by (rule wellFormed_finish [OF scanLines_invariant])

subsection \<open>Validity and errors\<close>

text \<open>
  Claim C1. For every source text the report satisfies
  \<^verbatim>\<open>isValid == (errors.length == 0)\<close>: the flag is true exactly when the list of
  errors is empty.
\<close>

theorem valid_iff_no_errors:
  "isValid (performSTValidation code) = (errors (performSTValidation code) = [])"
  using report_wellFormed [of code] by (simp add: wellFormed_def)

subsection \<open>The scenario of a reserved word as a variable name\<close>

lemma report_reserved_if:
  "performSTValidation ''VAR\<newline>IF : BOOL;\<newline>END_VAR'' =
     \<lparr> isValid = False,
       errors = [reservedWordError ''IF'' 2,
                 syntaxError ''IF statement must be followed by THEN'' 2],
       warnings = [unusedWarning ''IF''],
       suggestions = [commentSuggestion, emergencyStopSuggestion],
       safetyChecks = \<lparr> emergencyStop = False, safetyInterlocks = False,
                        failSafeMechanisms = False, watchdogTimer = False,
                        inputValidation = False \<rparr>,
       iecCompliance = \<lparr> variableDeclaration = True, dataTypeUsage = True,
                         structureCompliance = False, namingConvention = True \<rparr>,
       syntaxScore = 65, logicScore = 100, safetyScore = 0 \<rparr>"
  by code_simp

text \<open>
  The scenario of claim C2 does not give one error: it gives two.
\<close>

theorem reserved_word_scenario_counterexample:
  "length (errors (performSTValidation ''VAR\<newline>IF : BOOL;\<newline>END_VAR'')) = 2
   \<and> (\<nexists>e. errors (performSTValidation ''VAR\<newline>IF : BOOL;\<newline>END_VAR'') = [e])"
  by (simp add: report_reserved_if)

text \<open>
  Claim C2, as amended. For the text \<^verbatim>\<open>VAR\<close>, \<^verbatim>\<open>IF : BOOL;\<close>, \<^verbatim>\<open>END_VAR\<close>
  on three lines the report has exactly two errors, both of category Syntax and severity
  Critical and both on line 2: the misuse of the reserved word \<^verbatim>\<open>IF\<close> as a
  variable name, and then \<^verbatim>\<open>IF statement must be followed by THEN\<close>, since the
  declaration line contains \<^verbatim>\<open>IF\<close> and a space and the check of IF lines reads
  every processed line. \<^verbatim>\<open>isValid\<close> is false.
\<close>

theorem reserved_word_scenario:
  "errors (performSTValidation ''VAR\<newline>IF : BOOL;\<newline>END_VAR'') =
     [\<lparr> type = Error,
         message = [CHR 0x27] @ ''IF'' @ [CHR 0x27]
                   @ '' is a reserved word and cannot be used as variable name'',
         line = Some 2, column = None, severity = Critical, category = Syntax \<rparr>,
      \<lparr> type = Error, message = ''IF statement must be followed by THEN'',
         line = Some 2, column = None, severity = Critical, category = Syntax \<rparr>]
   \<and> isValid (performSTValidation ''VAR\<newline>IF : BOOL;\<newline>END_VAR'') = False"
  by (simp add: report_reserved_if reservedWordError_def syntaxError_def apostrophe_def)

subsection \<open>The scores\<close>

lemma no_semantics_errors:
  "filter (\<lambda>e. category e = Semantics) (errors (performSTValidation code)) = []"
  using scan_errors [of code]
  by (auto simp add: report_errors filter_empty_conv list_all_iff scanError_def unmatchedError_def)

text \<open>
  Claim C3. For every source text the report has \<^verbatim>\<open>logicScore = 100\<close>: no error of
  the report has the category Semantics, and the score is
  \<^verbatim>\<open>max(0, 100 - 20 * n)\<close> for the number \<open>n\<close> of errors of that category.
\<close>

theorem logicScore_always_100:
  "filter (\<lambda>e. category e = Semantics) (errors (performSTValidation code)) = []
   \<and> logicScore (performSTValidation code) =
       max 0 (100 - 20 * int (length (filter (\<lambda>e. category e = Semantics)
                                        (errors (performSTValidation code)))))
   \<and> logicScore (performSTValidation code) = 100"
proof -
  have f: "logicScore (performSTValidation code) =
       max 0 (100 - 20 * int (length (filter (\<lambda>e. category e = Semantics)
                                        (errors (performSTValidation code)))))"
    unfolding performSTValidation_def by (rule finish_scores(2))
  show ?thesis using f no_semantics_errors [of code] by simp
qed

text \<open>
  Claim C4. For every source text, \<^verbatim>\<open>syntaxScore\<close> is
  \<^verbatim>\<open>max(0, 100 - 15 * |errors| - 5 * |warnings|)\<close>, \<^verbatim>\<open>safetyScore\<close> is
  \<^verbatim>\<open>min(100, 20 * k)\<close> for the number \<open>k\<close> of true flags of the safety audit, and
  the three scores are integers between 0 and 100. A report with exactly two errors, one
  warning and no error of category Semantics has \<^verbatim>\<open>syntaxScore = 65\<close> and
  \<^verbatim>\<open>logicScore = 100\<close>.
\<close>

theorem score_formulas:
  "syntaxScore (performSTValidation code) =
     max 0 (100 - 15 * int (length (errors (performSTValidation code)))
                - 5 * int (length (warnings (performSTValidation code))))
   \<and> safetyScore (performSTValidation code) =
       min 100 (20 * int (length (filter (\<lambda>b. b)
         [emergencyStop (safetyChecks (performSTValidation code)),
          safetyInterlocks (safetyChecks (performSTValidation code)),
          failSafeMechanisms (safetyChecks (performSTValidation code)),
          watchdogTimer (safetyChecks (performSTValidation code)),
          inputValidation (safetyChecks (performSTValidation code))])))
   \<and> 0 \<le> syntaxScore (performSTValidation code) \<and> syntaxScore (performSTValidation code) \<le> 100
   \<and> 0 \<le> logicScore (performSTValidation code) \<and> logicScore (performSTValidation code) \<le> 100
   \<and> 0 \<le> safetyScore (performSTValidation code) \<and> safetyScore (performSTValidation code) \<le> 100
   \<and> (length (errors (performSTValidation code)) = 2
        \<and> length (warnings (performSTValidation code)) = 1
        \<and> filter (\<lambda>e. category e = Semantics) (errors (performSTValidation code)) = []
        \<longrightarrow> syntaxScore (performSTValidation code) = 65
            \<and> logicScore (performSTValidation code) = 100)"
proof -
  let ?r = "performSTValidation code"
  have a: "syntaxScore ?r =
     max 0 (100 - 15 * int (length (errors ?r)) - 5 * int (length (warnings ?r)))"
    unfolding performSTValidation_def by (rule finish_scores(1))
  have b: "logicScore ?r =
     max 0 (100 - 20 * int (length (filter (\<lambda>e. category e = Semantics) (errors ?r))))"
    unfolding performSTValidation_def by (rule finish_scores(2))
  have c: "safetyScore ?r = min 100 (20 * safetyFeatures (safetyChecks ?r))"
    unfolding performSTValidation_def by (rule finish_scores(3))
  have d: "safetyFeatures (safetyChecks ?r) = int (length (filter (\<lambda>b. b)
         [emergencyStop (safetyChecks ?r), safetyInterlocks (safetyChecks ?r),
          failSafeMechanisms (safetyChecks ?r), watchdogTimer (safetyChecks ?r),
          inputValidation (safetyChecks ?r)]))"
    by (simp add: safetyFeatures_def id_def)
  have w: "wellFormed ?r" by (rule report_wellFormed)
  have e: "length (errors ?r) = 2 \<and> length (warnings ?r) = 1
        \<and> filter (\<lambda>e. category e = Semantics) (errors ?r) = []
        \<longrightarrow> syntaxScore ?r = 65 \<and> logicScore ?r = 100"
    using a b by simp
  show ?thesis using a c d e w unfolding wellFormed_def by presburger
qed

theorem score_formulas_witness:
  "length (errors (performSTValidation ''VAR\<newline>IF : BOOL;\<newline>END_VAR'')) = 2
   \<and> length (warnings (performSTValidation ''VAR\<newline>IF : BOOL;\<newline>END_VAR'')) = 1
   \<and> filter (\<lambda>e. category e = Semantics)
        (errors (performSTValidation ''VAR\<newline>IF : BOOL;\<newline>END_VAR'')) = []
   \<and> syntaxScore (performSTValidation ''VAR\<newline>IF : BOOL;\<newline>END_VAR'') = 65
   \<and> logicScore (performSTValidation ''VAR\<newline>IF : BOOL;\<newline>END_VAR'') = 100"
proof -
  let ?r = "performSTValidation ''VAR\<newline>IF : BOOL;\<newline>END_VAR''"
  have h: "length (errors ?r) = 2 \<and> length (warnings ?r) = 1
     \<and> filter (\<lambda>e. category e = Semantics) (errors ?r) = []"
    by (simp add: report_reserved_if reservedWordError_def syntaxError_def)
  show ?thesis
    using h score_formulas [of "''VAR\<newline>IF : BOOL;\<newline>END_VAR''"] by blast
qed

subsection \<open>Unmatched parentheses\<close>

lemma scan_errors_not_unmatched:
  "filter (\<lambda>e. message e = ''Unmatched parentheses in code'') (errors (results (scanLines code))) = []"
  using scan_errors [of code] by (auto simp add: filter_empty_conv list_all_iff scanError_def)

lemma balance_open: "parenthesisBalance ''x := (a + b;'' = 1"
  by code_simp

lemma report_open:
  "errors (performSTValidation ''x := (a + b;'') = [unmatchedError]
   \<and> \<not> isValid (performSTValidation ''x := (a + b;'')"
  by code_simp

text \<open>
  Claim C5. When the parenthesis balance of the processed lines is not zero, the report
  has exactly one error with the message of unmatched parentheses, of category Syntax and
  severity Critical, without a line number, and \<^verbatim>\<open>isValid\<close> is false. The message
  in the source is \<^verbatim>\<open>Unmatched parentheses in code\<close>, with a capital letter; it is
  the text of the claim up to the case of letters. The one-line text
  \<^verbatim>\<open>x := (a + b;\<close> gives this error and no other.
\<close>

theorem unmatched_parentheses:
  "(parenthesisBalance code \<noteq> 0 \<longrightarrow>
      filter (\<lambda>e. message e = ''Unmatched parentheses in code'')
        (errors (performSTValidation code)) = [unmatchedError]
      \<and> \<not> isValid (performSTValidation code))
   \<and> unmatchedError =
        \<lparr> type = Error, message = ''Unmatched parentheses in code'', line = None,
          column = None, severity = Critical, category = Syntax \<rparr>
   \<and> toUpperCase (message unmatchedError) = toUpperCase ''unmatched parentheses in code''
   \<and> errors (performSTValidation ''x := (a + b;'') = [unmatchedError]
   \<and> \<not> isValid (performSTValidation ''x := (a + b;'')"
proof -
  have a: "parenthesisBalance code \<noteq> 0 \<longrightarrow>
      filter (\<lambda>e. message e = ''Unmatched parentheses in code'')
        (errors (performSTValidation code)) = [unmatchedError]
      \<and> \<not> isValid (performSTValidation code)"
    using scan_errors_not_unmatched [of code] report_wellFormed [of code]
    by (simp add: report_errors wellFormed_def unmatchedError_def)
  have b: "toUpperCase (message unmatchedError) = toUpperCase ''unmatched parentheses in code''"
    by code_simp
  show ?thesis using a b report_open by (simp add: unmatchedError_def)
qed

theorem unmatched_parentheses_witness:
  "parenthesisBalance ''x := (a + b;'' \<noteq> 0
   \<and> filter (\<lambda>e. message e = ''Unmatched parentheses in code'')
        (errors (performSTValidation ''x := (a + b;'')) = [unmatchedError]
   \<and> \<not> isValid (performSTValidation ''x := (a + b;'')"
proof -
  have h: "parenthesisBalance ''x := (a + b;'' \<noteq> 0"
    by (simp add: balance_open)
  show ?thesis using h unmatched_parentheses [of "''x := (a + b;''"] by blast
qed

subsection \<open>The warning of the assignment operator\<close>

lemma report_warnings_not_errors:
  "type w = Warning \<Longrightarrow> w \<notin> set (errors (performSTValidation code))"
  using report_wellFormed [of code] by (auto simp add: wellFormed_def list_all_iff)

lemma report_mixed_operators:
  "warnings (performSTValidation ''x := 1; y = 2;'') = []"
  by code_simp

lemma mixed_operators_line:
  "bareEquals (trim ''x := 1; y = 2;'') \<and> \<not> skipLine (trim ''x := 1; y = 2;'')
   \<and> \<not> includesStr (toUpperCase (trim ''x := 1; y = 2;'')) ''IF ''
   \<and> split_lines ''x := 1; y = 2;'' = [''x := 1; y = 2;'']"
  by code_simp

text \<open>
  The claim C6 as stated fails on the line \<^verbatim>\<open>x := 1; y = 2;\<close>: its second
  \<^verbatim>\<open>=\<close> is bare and the line has no \<^verbatim>\<open>IF\<close>, but the line also contains
  \<^verbatim>\<open>:=\<close>, and there is no warning.
\<close>

theorem bare_equals_counterexample:
  "split_lines ''x := 1; y = 2;'' = [''x := 1; y = 2;'']
   \<and> \<not> skipLine (trim ''x := 1; y = 2;'')
   \<and> bareEquals (trim ''x := 1; y = 2;'')
   \<and> \<not> includesStr (toUpperCase (trim ''x := 1; y = 2;'')) ''IF ''
   \<and> assignmentWarning 1 \<notin> set (warnings (performSTValidation ''x := 1; y = 2;''))"
  using mixed_operators_line by (simp add: report_mixed_operators)

text \<open>
  Claim C6, as amended. Every processed line that contains \<^verbatim>\<open>=\<close> and contains none
  of \<^verbatim>\<open>:=\<close>, \<^verbatim>\<open><=\<close>, \<^verbatim>\<open>>=\<close> and \<^verbatim>\<open><>\<close> anywhere, and whose upper-cased
  text does not contain \<^verbatim>\<open>IF\<close> followed by a space, adds a warning of category
  Syntax and severity Medium with the message
  \<^verbatim>\<open>Use := for assignment, = is for comparison\<close> and the number of the line. The
  tests are tests of the whole line, not of the \<^verbatim>\<open>=\<close> character. No such warning is
  among the errors, and \<^verbatim>\<open>isValid\<close> only says whether there are errors, so the
  warning does not affect it.
\<close>

theorem assignment_operator_warning:
  assumes "k < length (split_lines code)"
    and "t = trim (split_lines code ! k)"
    and "\<not> skipLine t"
    and "includesStr t ''=''"
    and "\<not> includesStr t '':=''" and "\<not> includesStr t ''<=''"
    and "\<not> includesStr t ''>=''" and "\<not> includesStr t ''<>''"
    and "\<not> includesStr (toUpperCase t) ''IF ''"
  shows "\<lparr> type = Warning, message = ''Use := for assignment, = is for comparison'',
           line = Some (k + 1), column = None, severity = Medium, category = Syntax \<rparr>
           \<in> set (warnings (performSTValidation code))
         \<and> (\<forall>n. assignmentWarning n \<notin> set (errors (performSTValidation code)))
         \<and> isValid (performSTValidation code) = (errors (performSTValidation code) = [])"
proof -
  let ?ls = "split_lines code"
  let ?s = "forEachLine 0 (take k ?ls) initialState"
  have m: "assignmentOperatorMisuse t (toUpperCase t)"
    using assms(4-9) by (simp add: assignmentOperatorMisuse_def)
  have "grows (processLine (Suc (0 + k)) (trim (?ls ! k)) ?s) (forEachLine 0 ?ls initialState)"
    using assms(1-3) by (intro processed_line_grows) simp_all
  then have g: "grows (processLine (Suc k) t ?s) (scanLines code)"
    using assms(2) by (simp add: scanLines_def)
  have "assignmentWarning (Suc k) \<in> set (warnings (results (processLine (Suc k) t ?s)))"
    by (rule processLine_assignmentWarning [OF m])
  then have a: "assignmentWarning (Suc k) \<in> set (warnings (performSTValidation code))"
    using scan_to_report_grows(1) [OF g] by blast
  have b: "\<forall>n. assignmentWarning n \<notin> set (errors (performSTValidation code))"
    by (simp add: report_warnings_not_errors assignmentWarning_def)
  have c: "isValid (performSTValidation code) = (errors (performSTValidation code) = [])"
    using report_wellFormed [of code] by (simp add: wellFormed_def)
  show ?thesis using a b c by (simp add: assignmentWarning_def)
qed

lemma comparison_scenario_line:
  "split_lines ''VAR\<newline>a : BOOL;\<newline>END_VAR\<newline>a = TRUE;'' =
     [''VAR'', ''a : BOOL;'', ''END_VAR'', ''a = TRUE;'']
   \<and> trim ''a = TRUE;'' = ''a = TRUE;''
   \<and> \<not> skipLine ''a = TRUE;''
   \<and> includesStr ''a = TRUE;'' ''=''
   \<and> \<not> includesStr ''a = TRUE;'' '':='' \<and> \<not> includesStr ''a = TRUE;'' ''<=''
   \<and> \<not> includesStr ''a = TRUE;'' ''>='' \<and> \<not> includesStr ''a = TRUE;'' ''<>''
   \<and> \<not> includesStr (toUpperCase ''a = TRUE;'') ''IF ''"
  by code_simp

lemma comparison_scenario_errors:
  "errors (performSTValidation ''VAR\<newline>a : BOOL;\<newline>END_VAR\<newline>a = TRUE;'') = []"
  by code_simp

theorem assignment_operator_warning_witness:
  "\<lparr> type = Warning, message = ''Use := for assignment, = is for comparison'',
      line = Some 4, column = None, severity = Medium, category = Syntax \<rparr>
     \<in> set (warnings (performSTValidation ''VAR\<newline>a : BOOL;\<newline>END_VAR\<newline>a = TRUE;''))
   \<and> isValid (performSTValidation ''VAR\<newline>a : BOOL;\<newline>END_VAR\<newline>a = TRUE;'')"
proof -
  let ?c = "''VAR\<newline>a : BOOL;\<newline>END_VAR\<newline>a = TRUE;''"
  have l: "split_lines ?c = [''VAR'', ''a : BOOL;'', ''END_VAR'', ''a = TRUE;'']"
    using comparison_scenario_line by blast
  have h: "3 < length (split_lines ?c)" "''a = TRUE;'' = trim (split_lines ?c ! 3)"
    "\<not> skipLine ''a = TRUE;''" "includesStr ''a = TRUE;'' ''=''"
    "\<not> includesStr ''a = TRUE;'' '':=''" "\<not> includesStr ''a = TRUE;'' ''<=''"
    "\<not> includesStr ''a = TRUE;'' ''>=''" "\<not> includesStr ''a = TRUE;'' ''<>''"
    "\<not> includesStr (toUpperCase ''a = TRUE;'') ''IF ''"
    using comparison_scenario_line by (simp_all add: l)
  show ?thesis
    using assignment_operator_warning [OF h] comparison_scenario_errors by simp
qed

subsection \<open>Used and unused variables\<close>

lemma scanLines_usedVariables:
  "set (usedVariables (scanLines code)) =
     {toUpperCase w | l w. l \<in> set (split_lines code) \<and> \<not> skipLine (trim l)
                           \<and> matchAssignment (trim l) = Some w}"
  by (simp add: scanLines_def forEachLine_usedVariables initialState_def)

lemma report_warnings:
  "warnings (performSTValidation code) =
     warnings (results (scanLines code))
     @ map unusedWarning (filter (\<lambda>v. v \<notin> set (usedVariables (scanLines code)))
                            (declaredVariables (scanLines code)))"
  by (simp add: performSTValidation_def finish_warnings)

lemma declaration_section_scan:
  "split_lines ''VAR\<newline>a : INT := 0;\<newline>INT : BOOL;\<newline>END_VAR'' =
     [''VAR'', ''a : INT := 0;'', ''INT : BOOL;'', ''END_VAR'']
   \<and> inVarSection (forEachLine 0 [''VAR''] initialState)
   \<and> matchDeclaration (trim ''a : INT := 0;'') = Some (''a'', ''INT'')
   \<and> map (\<lambda>l. matchAssignment (trim l)) [''VAR'', ''a : INT := 0;'', ''INT : BOOL;'', ''END_VAR'']
       = [None, Some ''INT'', None, None]
   \<and> declaredVariables (scanLines ''VAR\<newline>a : INT := 0;\<newline>INT : BOOL;\<newline>END_VAR'')
       = [''A'', ''INT'']
   \<and> usedVariables (scanLines ''VAR\<newline>a : INT := 0;\<newline>INT : BOOL;\<newline>END_VAR'')
       = [''INT'']"
  by code_simp

lemma declaration_section_warnings:
  "warnings (performSTValidation ''VAR\<newline>a : INT := 0;\<newline>INT : BOOL;\<newline>END_VAR'')
     = [unusedWarning ''A'']"
  by code_simp

lemma second_target_scan:
  "split_lines ''VAR\<newline>y : INT;\<newline>END_VAR\<newline>x := 1; y := 2;'' =
     [''VAR'', ''y : INT;'', ''END_VAR'', ''x := 1; y := 2;'']
   \<and> \<not> inVarSection (forEachLine 0 [''VAR'', ''y : INT;'', ''END_VAR''] initialState)
   \<and> includesStr ''x := 1; y := 2;'' ''y :=''
   \<and> usedVariables (scanLines ''VAR\<newline>y : INT;\<newline>END_VAR\<newline>x := 1; y := 2;'') = [''X'']"
  by code_simp

lemma second_target_warnings:
  "warnings (performSTValidation ''VAR\<newline>y : INT;\<newline>END_VAR\<newline>x := 1; y := 2;'')
     = [unusedWarning ''Y'']"
  by code_simp

text \<open>
  The claim C7 as stated fails twice. In the first text the only match of
  \<^verbatim>\<open><identifier> :=\<close> is on a declaration line inside the declaration section,
  and it is recorded: \<^verbatim>\<open>INT\<close> is declared and gets no warning. In the second text
  \<^verbatim>\<open>y\<close> is an assignment target outside the declaration section, on a line whose
  first target is \<^verbatim>\<open>x\<close>; it is not recorded and gets the warning.
\<close>

theorem usage_tracking_counterexample:
  "split_lines ''VAR\<newline>a : INT := 0;\<newline>INT : BOOL;\<newline>END_VAR'' =
     [''VAR'', ''a : INT := 0;'', ''INT : BOOL;'', ''END_VAR'']
   \<and> inVarSection (forEachLine 0 [''VAR''] initialState)
   \<and> matchDeclaration (trim ''a : INT := 0;'') = Some (''a'', ''INT'')
   \<and> map (\<lambda>l. matchAssignment (trim l)) [''VAR'', ''a : INT := 0;'', ''INT : BOOL;'', ''END_VAR'']
       = [None, Some ''INT'', None, None]
   \<and> ''INT'' \<in> set (declaredVariables
         (scanLines ''VAR\<newline>a : INT := 0;\<newline>INT : BOOL;\<newline>END_VAR''))
   \<and> ''INT'' \<in> set (usedVariables
         (scanLines ''VAR\<newline>a : INT := 0;\<newline>INT : BOOL;\<newline>END_VAR''))
   \<and> unusedWarning ''INT'' \<notin> set (warnings
         (performSTValidation ''VAR\<newline>a : INT := 0;\<newline>INT : BOOL;\<newline>END_VAR''))
   \<and> split_lines ''VAR\<newline>y : INT;\<newline>END_VAR\<newline>x := 1; y := 2;'' =
       [''VAR'', ''y : INT;'', ''END_VAR'', ''x := 1; y := 2;'']
   \<and> \<not> inVarSection (forEachLine 0 [''VAR'', ''y : INT;'', ''END_VAR''] initialState)
   \<and> includesStr ''x := 1; y := 2;'' ''y :=''
   \<and> ''Y'' \<notin> set (usedVariables
         (scanLines ''VAR\<newline>y : INT;\<newline>END_VAR\<newline>x := 1; y := 2;''))
   \<and> unusedWarning ''Y'' \<in> set (warnings
         (performSTValidation ''VAR\<newline>y : INT;\<newline>END_VAR\<newline>x := 1; y := 2;''))"
proof -
  have a: "unusedWarning ''INT'' \<noteq> unusedWarning ''A''"
    by (simp add: unusedWarning_def)
  show ?thesis
    using declaration_section_scan second_target_scan a
    by (simp add: declaration_section_warnings second_target_warnings)
qed

text \<open>
  Claim C7, as amended. Every processed line, inside a declaration section or not,
  records the upper-cased word of its first match of \<^verbatim>\<open><identifier> :=\<close> in
  \<^verbatim>\<open>usedVariables\<close>, and nothing else is recorded. After the scan, each name of
  \<^verbatim>\<open>declaredVariables\<close> that is not in \<^verbatim>\<open>usedVariables\<close> adds one warning, in the
  order of declaration and after the warnings of the scan: category Style, severity Low,
  no line number, message \<^verbatim>\<open>Variable '<name>' declared but never used\<close>. No such
  warning is among the errors.
\<close>

theorem unused_variable_warnings:
  "set (usedVariables (scanLines code)) =
     {toUpperCase w | l w. l \<in> set (split_lines code) \<and> \<not> skipLine (trim l)
                           \<and> matchAssignment (trim l) = Some w}
   \<and> warnings (performSTValidation code) =
       warnings (results (scanLines code))
       @ map unusedWarning (filter (\<lambda>v. v \<notin> set (usedVariables (scanLines code)))
                              (declaredVariables (scanLines code)))
   \<and> (\<forall>v \<in> set (declaredVariables (scanLines code)).
         v \<notin> set (usedVariables (scanLines code))
         \<longrightarrow> unusedWarning v \<in> set (warnings (performSTValidation code)))
   \<and> (\<forall>v. unusedWarning v =
         \<lparr> type = Warning,
           message = ''Variable '' @ [CHR 0x27] @ v @ [CHR 0x27] @ '' declared but never used'',
           line = None, column = None, severity = Low, category = Style \<rparr>)
   \<and> (\<forall>v. unusedWarning v \<notin> set (errors (performSTValidation code)))"
proof -
  have c: "\<forall>v \<in> set (declaredVariables (scanLines code)).
         v \<notin> set (usedVariables (scanLines code))
         \<longrightarrow> unusedWarning v \<in> set (warnings (performSTValidation code))"
    by (simp add: report_warnings)
  have d: "\<forall>v. unusedWarning v =
         \<lparr> type = Warning,
           message = ''Variable '' @ [CHR 0x27] @ v @ [CHR 0x27] @ '' declared but never used'',
           line = None, column = None, severity = Low, category = Style \<rparr>"
    by (simp add: unusedWarning_def apostrophe_def)
  have e: "\<forall>v. unusedWarning v \<notin> set (errors (performSTValidation code))"
    by (simp add: report_warnings_not_errors unusedWarning_def)
  show ?thesis
    using scanLines_usedVariables [of code] report_warnings [of code] c d e by blast
qed

lemma unused_scenario_scan:
  "declaredVariables (scanLines ''VAR\<newline>unused_var : INT;\<newline>END_VAR'') = [''UNUSED_VAR'']
   \<and> usedVariables (scanLines ''VAR\<newline>unused_var : INT;\<newline>END_VAR'') = []"
  by code_simp

theorem unused_variable_warnings_witness:
  "''UNUSED_VAR'' \<in> set (declaredVariables (scanLines ''VAR\<newline>unused_var : INT;\<newline>END_VAR''))
   \<and> ''UNUSED_VAR'' \<notin> set (usedVariables (scanLines ''VAR\<newline>unused_var : INT;\<newline>END_VAR''))
   \<and> unusedWarning ''UNUSED_VAR''
       \<in> set (warnings (performSTValidation ''VAR\<newline>unused_var : INT;\<newline>END_VAR''))
   \<and> unusedWarning ''UNUSED_VAR''
       \<notin> set (errors (performSTValidation ''VAR\<newline>unused_var : INT;\<newline>END_VAR''))"
proof -
  let ?c = "''VAR\<newline>unused_var : INT;\<newline>END_VAR''"
  have h: "''UNUSED_VAR'' \<in> set (declaredVariables (scanLines ?c))"
    "''UNUSED_VAR'' \<notin> set (usedVariables (scanLines ?c))"
    by (simp_all add: unused_scenario_scan)
  show ?thesis using h unused_variable_warnings [of ?c] by blast
qed

subsection \<open>Totality and degenerate input\<close>

lemma report_of_blank:
  assumes "list_all isWhiteSpace code"
  shows "declaredVariables (scanLines code) = []"
    and "errors (performSTValidation code) = []"
    and "warnings (performSTValidation code) = []"
    and "isValid (performSTValidation code)"
    and "syntaxScore (performSTValidation code) = 100"
    and "logicScore (performSTValidation code) = 100"
    and "safetyScore (performSTValidation code) = 0"
proof -
  have s: "scanLines code = initialState" by (rule scanLines_white [OF assms])
  show "declaredVariables (scanLines code) = []" by (simp add: s initialState_def)
  show e: "errors (performSTValidation code) = []"
    by (simp add: performSTValidation_def s finish_errors initialState_def initialResults_def)
  show w: "warnings (performSTValidation code) = []"
    by (simp add: performSTValidation_def s finish_warnings initialState_def initialResults_def)
  show "isValid (performSTValidation code)"
    by (simp add: performSTValidation_def s finish_isValid initialState_def initialResults_def)
  have "syntaxScore (performSTValidation code) =
     max 0 (100 - 15 * int (length (errors (performSTValidation code)))
                - 5 * int (length (warnings (performSTValidation code))))"
    unfolding performSTValidation_def by (rule finish_scores(1))
  then show "syntaxScore (performSTValidation code) = 100" by (simp add: e w)
  have "logicScore (performSTValidation code) =
     max 0 (100 - 20 * int (length (filter (\<lambda>e. category e = Semantics)
                                      (errors (performSTValidation code)))))"
    unfolding performSTValidation_def by (rule finish_scores(2))
  then show "logicScore (performSTValidation code) = 100" by (simp add: e)
  have "safetyScore (performSTValidation code) =
     min 100 (20 * safetyFeatures (safetyChecks (performSTValidation code)))"
    unfolding performSTValidation_def by (rule finish_scores(3))
  then show "safetyScore (performSTValidation code) = 0"
    by (simp add: performSTValidation_def s finish_safetyChecks initialState_def
        initialResults_def safetyFeatures_def)
qed

lemma report_smiley:
  "errors (performSTValidation ''hello :-)'') = [unmatchedError]
   \<and> syntaxScore (performSTValidation ''hello :-)'') = 85"
  by code_simp

lemma report_prose:
  "errors (performSTValidation ''wait for me'') = [syntaxError ''FOR statement missing TO keyword'' 1]
   \<and> syntaxScore (performSTValidation ''wait for me'') = 85"
  by code_simp

text \<open>
  The claim C8 as stated fails on text that is not Structured Text: a smiley gives the
  error of unmatched parentheses, and a sentence with the word \<^verbatim>\<open>for\<close> gives the
  error of the FOR check.
\<close>

theorem degenerate_input_counterexample:
  "errors (performSTValidation ''hello :-)'') \<noteq> []
   \<and> \<not> isValid (performSTValidation ''hello :-)'')
   \<and> syntaxScore (performSTValidation ''hello :-)'') = 85
   \<and> errors (performSTValidation ''wait for me'') \<noteq> []
   \<and> \<not> isValid (performSTValidation ''wait for me'')
   \<and> syntaxScore (performSTValidation ''wait for me'') = 85"
  using report_smiley report_prose report_wellFormed [of "''hello :-)''"]
    report_wellFormed [of "''wait for me''"]
  by (simp add: wellFormed_def)

text \<open>
  Claim C8, as amended. The validator is a total function: the source has no statement
  that can raise on a string, and the model has no failure value. For every text the
  report is well formed. For the empty text and for a text of white space only, no
  variable is declared, there are no errors and no warnings, and the scores are
  \<^verbatim>\<open>syntaxScore = 100\<close>, \<^verbatim>\<open>logicScore = 100\<close> and \<^verbatim>\<open>safetyScore = 0\<close>. A text that
  is not Structured Text gets a well-formed report too, but one that may hold errors.
\<close>

theorem validation_total_and_well_formed:
  "(\<exists>r. performSTValidation code = r \<and> wellFormed r)
   \<and> (list_all isWhiteSpace code \<longrightarrow>
        declaredVariables (scanLines code) = []
        \<and> errors (performSTValidation code) = []
        \<and> warnings (performSTValidation code) = []
        \<and> isValid (performSTValidation code)
        \<and> syntaxScore (performSTValidation code) = 100
        \<and> logicScore (performSTValidation code) = 100
        \<and> safetyScore (performSTValidation code) = 0)"
  using report_wellFormed [of code] report_of_blank [of code] by blast

theorem validation_total_and_well_formed_witness:
  "list_all isWhiteSpace [CHR 0x20, CHR 0x0A, CHR 0x09]
   \<and> wellFormed (performSTValidation [CHR 0x20, CHR 0x0A, CHR 0x09])
   \<and> declaredVariables (scanLines [CHR 0x20, CHR 0x0A, CHR 0x09]) = []
   \<and> errors (performSTValidation [CHR 0x20, CHR 0x0A, CHR 0x09]) = []
   \<and> syntaxScore (performSTValidation [CHR 0x20, CHR 0x0A, CHR 0x09]) = 100
   \<and> logicScore (performSTValidation [CHR 0x20, CHR 0x0A, CHR 0x09]) = 100
   \<and> safetyScore (performSTValidation [CHR 0x20, CHR 0x0A, CHR 0x09]) = 0
   \<and> list_all isWhiteSpace []
   \<and> errors (performSTValidation []) = []
   \<and> syntaxScore (performSTValidation []) = 100"
proof -
  have h: "list_all isWhiteSpace [CHR 0x20, CHR 0x0A, CHR 0x09]" "list_all isWhiteSpace []"
    by (simp_all add: isWhiteSpace_def)
  show ?thesis
    using h validation_total_and_well_formed [of "[CHR 0x20, CHR 0x0A, CHR 0x09]"]
      validation_total_and_well_formed [of "[]"]
    by blast
qed

subsection \<open>Skipped lines and block comments\<close>

lemma startsWith_take: "startsWith s p = (take (length p) s = p)"
  by (induction s p rule: startsWith.induct) auto

lemma skipLine_take:
  "skipLine t = (t = [] \<or> take 2 t = ''(*'' \<or> take 2 t = ''//'')"
  by (simp add: skipLine_def startsWith_take numeral_2_eq_2)

lemma scanLines_foldl:
  "scanLines code =
     foldl (\<lambda>st (lineNum, t). processLine lineNum t st) initialState (numberedLines code)"
  by (simp add: scanLines_def numberedLines_def forEachLine_foldl)

lemma comment_block_lines:
  "split_lines ''(* note\<newline>IF x (\<newline>*)'' = [''(* note'', ''IF x ('', ''*)'']
   \<and> map (\<lambda>l. skipLine (trim l)) [''(* note'', ''IF x ('', ''*)''] = [True, False, False]"
  by code_simp

lemma comment_block_report:
  "errors (performSTValidation ''(* note\<newline>IF x (\<newline>*)'') =
     [syntaxError ''IF statement must be followed by THEN'' 2]
   \<and> \<not> isValid (performSTValidation ''(* note\<newline>IF x (\<newline>*)'')"
  by code_simp

text \<open>
  Claim C9. The scan skips exactly the lines whose trimmed text is empty or begins with
  \<^verbatim>\<open>(*\<close> or \<^verbatim>\<open>//\<close>: it is the fold of the line body over all other lines. The
  lines after the opening line of a block comment are therefore processed: in the text
  \<^verbatim>\<open>(* note\<close>, \<^verbatim>\<open>IF x (\<close>, \<^verbatim>\<open>*)\<close> the second line, inside the comment, gives
  the error \<^verbatim>\<open>IF statement must be followed by THEN\<close>, and \<^verbatim>\<open>isValid\<close> is false.
\<close>

theorem comment_interior_is_processed:
  "scanLines code =
     foldl (\<lambda>st (lineNum, t). processLine lineNum t st) initialState (numberedLines code)
   \<and> numberedLines code =
       filter (\<lambda>(lineNum, t). \<not> (t = [] \<or> take 2 t = ''(*'' \<or> take 2 t = ''//''))
         (enumerate 1 (map trim (split_lines code)))
   \<and> split_lines ''(* note\<newline>IF x (\<newline>*)'' = [''(* note'', ''IF x ('', ''*)'']
   \<and> map (\<lambda>l. skipLine (trim l)) [''(* note'', ''IF x ('', ''*)''] = [True, False, False]
   \<and> errors (performSTValidation ''(* note\<newline>IF x (\<newline>*)'') =
       [\<lparr> type = Error, message = ''IF statement must be followed by THEN'',
          line = Some 2, column = None, severity = Critical, category = Syntax \<rparr>]
   \<and> \<not> isValid (performSTValidation ''(* note\<newline>IF x (\<newline>*)'')"
proof -
  have a: "numberedLines code =
       filter (\<lambda>(lineNum, t). \<not> (t = [] \<or> take 2 t = ''(*'' \<or> take 2 t = ''//''))
         (enumerate 1 (map trim (split_lines code)))"
    by (simp add: numberedLines_def skipLine_take)
  show ?thesis
    using scanLines_foldl [of code] a comment_block_lines comment_block_report
    by (simp add: syntaxError_def)
qed

subsection \<open>Overlapping families of safety words\<close>

lemma report_safety_door:
  "emergencyStop (safetyChecks (performSTValidation ''safety_door''))
   \<and> suggestions (performSTValidation ''safety_door'') = [commentSuggestion]
   \<and> \<not> testI ''emergency'' ''safety_door'' \<and> \<not> testI ''e_stop'' ''safety_door''
   \<and> \<not> testI ''estop'' ''safety_door''"
  by code_simp

text \<open>
  Claim C10. On every processed line, a match of \<^verbatim>\<open>watchdog\<close> (in any letter case)
  sets both \<^verbatim>\<open>failSafeMechanisms\<close> and \<^verbatim>\<open>watchdogTimer\<close>, and a match of
  \<^verbatim>\<open>safety\<close> sets \<^verbatim>\<open>emergencyStop\<close> and so suppresses the suggestion of emergency
  stop logic. The text \<^verbatim>\<open>safety_door\<close>, which matches none of the other words of the
  emergency stop family, is reported with \<^verbatim>\<open>emergencyStop\<close> true and without that
  suggestion.
\<close>

theorem safety_families_overlap:
  assumes "l \<in> set (split_lines code)" and "\<not> skipLine (trim l)"
  shows "(testI ''watchdog'' (trim l) \<longrightarrow>
            failSafeMechanisms (safetyChecks (performSTValidation code))
            \<and> watchdogTimer (safetyChecks (performSTValidation code)))
         \<and> (testI ''safety'' (trim l) \<longrightarrow>
              emergencyStop (safetyChecks (performSTValidation code))
              \<and> emergencyStopSuggestion \<notin> set (suggestions (performSTValidation code)))
         \<and> emergencyStop (safetyChecks (performSTValidation ''safety_door''))
         \<and> emergencyStopSuggestion \<notin> set (suggestions (performSTValidation ''safety_door''))
         \<and> \<not> testI ''emergency'' ''safety_door'' \<and> \<not> testI ''e_stop'' ''safety_door''
         \<and> \<not> testI ''estop'' ''safety_door''"
proof -
  let ?ls = "split_lines code"
  let ?r = "performSTValidation code"
  from assms(1) obtain k where k: "k < length ?ls" "?ls ! k = l"
    by (auto simp add: in_set_conv_nth)
  let ?s = "processLine (Suc k) (trim l) (forEachLine 0 (take k ?ls) initialState)"
  have "grows (processLine (Suc (0 + k)) (trim (?ls ! k)) (forEachLine 0 (take k ?ls) initialState))
          (forEachLine 0 ?ls initialState)"
    using k assms(2) by (intro processed_line_grows) simp_all
  then have g: "grows ?s (scanLines code)"
    using k by (simp add: scanLines_def)
  have w: "testI ''watchdog'' (trim l) \<longrightarrow>
      failSafeMechanisms (safetyChecks ?r) \<and> watchdogTimer (safetyChecks ?r)"
  proof
    assume t: "testI ''watchdog'' (trim l)"
    have "failSafeMechanisms (safetyChecks (results ?s))"
      using t by (intro processLine_flags) (simp add: testFailSafe_def)
    moreover have "watchdogTimer (safetyChecks (results ?s))"
      using t by (intro processLine_flags) (simp add: testWatchdog_def)
    ultimately show "failSafeMechanisms (safetyChecks ?r) \<and> watchdogTimer (safetyChecks ?r)"
      using scan_to_report_grows(3,4) [OF g] by blast
  qed
  have e: "testI ''safety'' (trim l) \<longrightarrow>
      emergencyStop (safetyChecks ?r) \<and> emergencyStopSuggestion \<notin> set (suggestions ?r)"
  proof
    assume t: "testI ''safety'' (trim l)"
    have "emergencyStop (safetyChecks (results ?s))"
      using t by (intro processLine_flags) (simp add: testEmergencyStop_def)
    then have a: "emergencyStop (safetyChecks (results (scanLines code)))"
      using g by (simp add: grows_def)
    have b: "suggestions (results (scanLines code)) = []"
      using scanLines_invariant [of code] by (simp add: scanInvariant_def)
    have "suggestions ?r = finalSuggestions code True"
      by (simp add: performSTValidation_def finish_suggestions a b)
    then have "emergencyStopSuggestion \<notin> set (suggestions ?r)"
      by (simp add: finalSuggestions_stop)
    moreover have "emergencyStop (safetyChecks ?r)"
      using a by (simp add: performSTValidation_def finish_safetyChecks)
    ultimately show "emergencyStop (safetyChecks ?r) \<and> emergencyStopSuggestion \<notin> set (suggestions ?r)"
      by blast
  qed
  have c: "emergencyStopSuggestion \<noteq> commentSuggestion"
    by (simp add: emergencyStopSuggestion_def commentSuggestion_def)
  show ?thesis using w e c report_safety_door by simp
qed

lemma watchdog_line:
  "split_lines ''safety_watchdog := TRUE;'' = [''safety_watchdog := TRUE;'']
   \<and> trim ''safety_watchdog := TRUE;'' = ''safety_watchdog := TRUE;''
   \<and> \<not> skipLine ''safety_watchdog := TRUE;''
   \<and> testI ''watchdog'' ''safety_watchdog := TRUE;''
   \<and> testI ''safety'' ''safety_watchdog := TRUE;''"
  by code_simp

theorem safety_families_overlap_witness:
  "''safety_watchdog := TRUE;'' \<in> set (split_lines ''safety_watchdog := TRUE;'')
   \<and> \<not> skipLine (trim ''safety_watchdog := TRUE;'')
   \<and> testI ''watchdog'' (trim ''safety_watchdog := TRUE;'')
   \<and> testI ''safety'' (trim ''safety_watchdog := TRUE;'')
   \<and> failSafeMechanisms (safetyChecks (performSTValidation ''safety_watchdog := TRUE;''))
   \<and> watchdogTimer (safetyChecks (performSTValidation ''safety_watchdog := TRUE;''))
   \<and> emergencyStop (safetyChecks (performSTValidation ''safety_watchdog := TRUE;''))
   \<and> emergencyStopSuggestion
       \<notin> set (suggestions (performSTValidation ''safety_watchdog := TRUE;''))"
proof -
  let ?c = "''safety_watchdog := TRUE;''"
  have h: "?c \<in> set (split_lines ?c)" "\<not> skipLine (trim ?c)"
    "testI ''watchdog'' (trim ?c)" "testI ''safety'' (trim ?c)"
    using watchdog_line by simp_all
  show ?thesis using h safety_families_overlap [OF h(1,2)] by blast
qed

end
